theory Spec2Isabelle
  imports Main "HOL-Library.AList" "HOL-Library.Word"
begin

unbundle bit_operations_syntax

chapter \<open>The embedding\<close>

section \<open>Python values used by all modules\<close>

text \<open>
  The exceptions the embedded functions can raise. A function that can raise returns
  its exception beside the state it had reached when raising: Python keeps every
  mutation made before the exception.
\<close>

datatype py_error = ValueError | KeyError | DecodeError | TypeError | AttributeError

type_synonym bytes = "nat list"

text \<open>Object identity: a reference is an index into a store of instances.\<close>

type_synonym ref = nat

section \<open>csgo/common_enums.py\<close>

definition ESOType_members :: "(string \<times> int) list" where
  "ESOType_members =
     [(''CSOEconItem'', 1),
      (''CSOPersonaDataPublic'', 2),
      (''CSOItemRecipe'', 5),
      (''CSOEconGameAccountClient'', 7),
      (''CSOEconItemDropRateBonus'', 38),
      (''CSOEconItemEventTicket'', 40),
      (''CSOAccountSeasonalOperation'', 41),
      (''CSOEconDefaultEquippedDefinitionInstanceClient'', 43),
      (''CSOEconCoupon'', 45),
      (''CSOQuestProgress'', 46)]"

text \<open>
  \<open>ESOType(v)\<close>: the member with value \<open>v\<close>, or ValueError. ESOType is an IntEnum, so a
  member is its integer value (it hashes and compares as that integer).
\<close>

definition ESOType :: "int \<Rightarrow> py_error + int" where
  "ESOType v = (if v \<in> set (map snd ESOType_members) then Inr v else Inl ValueError)"

text \<open>\<open>type_id.name\<close> of a member.\<close>

definition ESOType_name :: "int \<Rightarrow> string" where
  "ESOType_name v =
     (case find (\<lambda>m. snd m = v) ESOType_members of Some m \<Rightarrow> fst m | None \<Rightarrow> [])"

section \<open>csgo/features/sharedobjects.py\<close>

subsection \<open>The protobuf modules\<close>

text \<open>
  The generated protobuf modules \<open>csgo.protobufs\<close> and the protobuf runtime are not part
  of the sources: they are a parameter of the embedding. \<open>'p\<close> is a message class
  (and its descriptor), \<open>'c\<close> the field content of a decoded message, \<open>'v\<close> a field value.
  \<^item> \<open>gc_base\<close>, \<open>gc_cstrike\<close>: \<open>getattr(module, name, None)\<close> on the two modules;
  \<^item> \<open>key_field_options\<close>: the names of the fields of a descriptor whose options carry
    \<open>key_field = True\<close>, in declared order;
  \<^item> \<open>FromString\<close>: \<open>proto.FromString(data)\<close>, \<open>None\<close> when it raises DecodeError;
  \<^item> \<open>getattr\<close>: reading a field of a decoded message;
  \<^item> \<open>truthy\<close>: \<open>bool(message)\<close>.
\<close>

record ('p, 'c, 'v) protobufs =
  gc_base :: "string \<Rightarrow> 'p option"
  gc_cstrike :: "string \<Rightarrow> 'p option"
  key_field_options :: "'p \<Rightarrow> string list"
  FromString :: "'p \<Rightarrow> bytes \<Rightarrow> 'c option"
  getattr :: "'c \<Rightarrow> string \<Rightarrow> 'v"
  truthy :: "'c \<Rightarrow> bool"

definition find_so_proto :: "('p, 'c, 'v) protobufs \<Rightarrow> int \<Rightarrow> 'p option" where
  "find_so_proto pb t =
     (case ESOType t of
        Inl _ \<Rightarrow> None
      | Inr t' \<Rightarrow>
          (case gc_base pb (ESOType_name t') of
             None \<Rightarrow> gc_cstrike pb (ESOType_name t')
           | Some proto \<Rightarrow> Some proto))"

text \<open>\<open>NO_KEY\<close> is the sentinel object; otherwise the key fields are a list of names.\<close>

datatype key_fields = NO_KEY | Fields "string list"

text \<open>
  The module-level table \<open>so_key_fields\<close> as the source writes it, keyed by descriptor.
  A later entry of a dict display overrides an earlier one with an equal key, so the
  table is looked up from its end.
\<close>

definition so_key_fields :: "('p, 'c, 'v) protobufs \<Rightarrow> ('p \<times> key_fields) list" where
  "so_key_fields pb =
     List.map_filter (\<lambda>(module, name, k). map_option (\<lambda>p. (p, k)) (module name))
       [(gc_base pb, ''CSOEconItem'', Fields [''id'']),
        (gc_base pb, ''CSOEconGameAccountClient'', NO_KEY),
        (gc_base pb, ''CSOEconItemEventTicket'', NO_KEY),
        (gc_cstrike pb, ''CSOPersonaDataPublic'', NO_KEY)]"

text \<open>
  \<open>get_so_key_fields\<close>: the table first, the descriptor's key-field options otherwise.
  The source also stores the computed list in the table; a later call then reads the
  same list back, so the memo is not part of the state here.
\<close>

definition get_so_key_fields :: "('p, 'c, 'v) protobufs \<Rightarrow> 'p \<Rightarrow> key_fields" where
  "get_so_key_fields pb desc =
     (case map_of (rev (so_key_fields pb)) desc of
        Some k \<Rightarrow> k
      | None \<Rightarrow> Fields (key_field_options pb desc))"

text \<open>
  The key of an object: the sentinel, \<open>None\<close>, one field value, or a tuple of values.
\<close>

datatype 'v key = KNoKey | KNone | KVal 'v | KTuple "'v list"

definition get_key_for_object :: "('p, 'c, 'v) protobufs \<Rightarrow> 'p \<Rightarrow> 'c \<Rightarrow> 'v key" where
  "get_key_for_object pb desc obj =
     (case get_so_key_fields pb desc of
        NO_KEY \<Rightarrow> KNoKey
      | Fields k \<Rightarrow>
          if k = [] then KNone
          else if length k = 1 then KVal (getattr pb obj (hd k))
          else KTuple (map (getattr pb obj) k))"

subsection \<open>The cache\<close>

text \<open>
  What \<open>socache[type]\<close> holds: a dict from key to object, or (for a type without key) the
  object itself. Dicts are association lists in insertion order.
\<close>

datatype 'v container = Dict "('v key \<times> ref) list" | Object ref

datatype change = New | Updated | Removed

text \<open>
  A Subscription Record, the dict \<open>{'version': .., 'type_ids': set(..)}\<close>. Python does
  not specify the order in which a set is iterated; the order of the list stands for it.
\<close>

record subscription =
  version :: int
  type_ids :: "int list"

text \<open>
  The state of an \<open>SOCache\<close>: \<open>entries\<close> is the dict the cache itself is (type to
  container), \<open>caches\<close> is \<open>self._caches\<close>, \<open>heap\<close> holds the content of every decoded
  object (a reference is its index), \<open>emitted\<close> is the log of the events emitted, each
  \<open>((change, type), instance)\<close>.
\<close>

record ('c, 'v) socache =
  entries :: "(int \<times> 'v container) list"
  caches :: "((int \<times> int) \<times> subscription) list"
  heap :: "'c list"
  emitted :: "((change \<times> int) \<times> ref) list"

text \<open>The message of Create, Update and Destroy: a type id and the object's bytes.\<close>

record so_single =
  type_id :: int
  object_data :: bytes

text \<open>One per-type group of a Cache-subscribed message.\<close>

record so_group =
  group_type_id :: int
  group_object_data :: "bytes list"

record cache_subscribed =
  owner_type :: int
  owner_id :: int
  sub_version :: int
  objects :: "so_group list"

record cache_unsubscribed =
  unsub_owner_type :: int
  unsub_owner_id :: int

text \<open>\<open>SOCache.__getitem__\<close>\<close>

definition getitem ::
  "int \<Rightarrow> ('c, 'v) socache \<Rightarrow> (py_error + 'v container) \<times> ('c, 'v) socache" where
  "getitem k s =
     (case ESOType k of
        Inl _ \<Rightarrow> (Inl KeyError, s)
      | Inr k' \<Rightarrow>
          (case map_of (entries s) k' of
             None \<Rightarrow> (Inr (Dict []), s\<lparr>entries := AList.update k' (Dict []) (entries s)\<rparr>)
           | Some v \<Rightarrow> (Inr v, s)))"

text \<open>\<open>SOCache.emit\<close>: the event is appended to the log.\<close>

definition emit :: "change \<times> int \<Rightarrow> ref \<Rightarrow> ('c, 'v) socache \<Rightarrow> ('c, 'v) socache" where
  "emit event obj s = s\<lparr>emitted := emitted s @ [(event, obj)]\<rparr>"

text \<open>\<open>message.CopyFrom(other)\<close>: the content of \<open>other\<close> replaces that of \<open>message\<close>.\<close>

definition CopyFrom :: "ref \<Rightarrow> ref \<Rightarrow> ('c, 'v) socache \<Rightarrow> ('c, 'v) socache" where
  "CopyFrom cur obj s = s\<lparr>heap := (heap s)[cur := heap s ! obj]\<rparr>"

definition handle_cleanup :: "('c, 'v) socache \<Rightarrow> ('c, 'v) socache" where
  "handle_cleanup s = s\<lparr>entries := [], caches := []\<rparr>"

definition get_proto_for_type :: "('p, 'c, 'v) protobufs \<Rightarrow> int \<Rightarrow> 'p option" where
  "get_proto_for_type pb t =
     (case ESOType t of
        Inl _ \<Rightarrow> None
      | Inr t' \<Rightarrow> find_so_proto pb t')"

text \<open>
  \<open>_parse_object_data\<close>: \<open>Inr None\<close> is the logged failure (the source returns
  \<open>None\<close>), \<open>Inl DecodeError\<close> the exception of \<open>FromString\<close>; on success the decoded object
  is a new instance, allocated at the end of the heap.
\<close>

definition parse_object_data ::
  "('p, 'c, 'v) protobufs \<Rightarrow> int \<Rightarrow> bytes \<Rightarrow> ('c, 'v) socache \<Rightarrow>
     (py_error + ('v key \<times> ref) option) \<times> ('c, 'v) socache" where
  "parse_object_data pb t data s =
     (case get_proto_for_type pb t of
        None \<Rightarrow> (Inr None, s)
      | Some proto \<Rightarrow>
          if get_so_key_fields pb proto = Fields [] then (Inr None, s)
          else
            (case FromString pb proto data of
               None \<Rightarrow> (Inl DecodeError, s)
             | Some c \<Rightarrow>
                 (Inr (Some (get_key_for_object pb proto c, length (heap s))),
                  s\<lparr>heap := heap s @ [c]\<rparr>)))"

text \<open>
  \<open>_update_object\<close>. \<open>self[type_id]\<close> is \<open>getitem\<close> (it creates the empty dict when the
  type is absent); the source reads it several times in a row, which returns the same
  container each time. Asking an object for \<open>key in\<close> raises TypeError.
\<close>

definition update_object ::
  "('p, 'c, 'v) protobufs \<Rightarrow> int \<Rightarrow> bytes \<Rightarrow> ('c, 'v) socache \<Rightarrow>
     (py_error + (int \<times> ref) option) \<times> ('c, 'v) socache" where
  "update_object pb t data s =
     (case parse_object_data pb t data s of
        (Inl e, s1) \<Rightarrow> (Inl e, s1)
      | (Inr None, s1) \<Rightarrow> (Inr None, s1)
      | (Inr (Some (k, obj)), s1) \<Rightarrow>
          (case ESOType t of
             Inl e \<Rightarrow> (Inl e, s1)
           | Inr t' \<Rightarrow>
               (case getitem t' s1 of
                  (Inl e, s2) \<Rightarrow> (Inl e, s2)
                | (Inr field, s2) \<Rightarrow>
                    if k = KNoKey then
                      (case field of
                         Object cur \<Rightarrow> (Inr (Some (t', cur)), CopyFrom cur obj s2)
                       | Dict d \<Rightarrow>
                           (Inr (Some (t', obj)),
                            s2\<lparr>entries := AList.update t' (Object obj) (entries s2)\<rparr>))
                    else
                      (case field of
                         Object cur \<Rightarrow> (Inl TypeError, s2)
                       | Dict d \<Rightarrow>
                           (case map_of d k of
                              Some cur \<Rightarrow> (Inr (Some (t', cur)), CopyFrom cur obj s2)
                            | None \<Rightarrow>
                                (Inr (Some (t', obj)),
                                 s2\<lparr>entries :=
                                   AList.update t' (Dict (AList.update k obj d)) (entries s2)\<rparr>))))))"

definition handle_create ::
  "('p, 'c, 'v) protobufs \<Rightarrow> so_single \<Rightarrow> ('c, 'v) socache \<Rightarrow>
     py_error option \<times> ('c, 'v) socache" where
  "handle_create pb message s =
     (case update_object pb (type_id message) (object_data message) s of
        (Inl e, s1) \<Rightarrow> (Some e, s1)
      | (Inr None, s1) \<Rightarrow> (None, s1)
      | (Inr (Some (t, obj)), s1) \<Rightarrow> (None, emit (New, t) obj s1))"

definition handle_update ::
  "('p, 'c, 'v) protobufs \<Rightarrow> so_single \<Rightarrow> ('c, 'v) socache \<Rightarrow>
     py_error option \<times> ('c, 'v) socache" where
  "handle_update pb message s =
     (case update_object pb (type_id message) (object_data message) s of
        (Inl e, s1) \<Rightarrow> (Some e, s1)
      | (Inr None, s1) \<Rightarrow> (None, s1)
      | (Inr (Some (t, obj)), s1) \<Rightarrow> (None, emit (Updated, t) obj s1))"

text \<open>
  \<open>_handle_destroy\<close>. For a type without key the container is popped from the cache
  itself with plain \<open>dict.pop\<close> (no empty dict is created); \<open>current\<close> may then be the
  object, an empty dict left by an earlier read (falsy), or absent. A dict that is not
  empty is truthy and has no \<open>CopyFrom\<close>; an object has no \<open>pop\<close>. The truth value of
  \<open>current\<close> is read twice: by \<open>if current\<close> before \<open>CopyFrom\<close>, and by \<open>current or obj\<close>
  after it, on the content \<open>current\<close> has by then.
\<close>

definition handle_destroy ::
  "('p, 'c, 'v) protobufs \<Rightarrow> so_single \<Rightarrow> ('c, 'v) socache \<Rightarrow>
     py_error option \<times> ('c, 'v) socache" where
  "handle_destroy pb message s =
     (case parse_object_data pb (type_id message) (object_data message) s of
        (Inl e, s1) \<Rightarrow> (Some e, s1)
      | (Inr None, s1) \<Rightarrow> (None, s1)
      | (Inr (Some (k, obj)), s1) \<Rightarrow>
          (case ESOType (type_id message) of
             Inl e \<Rightarrow> (Some e, s1)
           | Inr t \<Rightarrow>
               if k = KNoKey then
                 (case map_of (entries s1) t of
                    None \<Rightarrow> (None, emit (Removed, t) obj s1)
                  | Some (Dict d) \<Rightarrow>
                      if d = [] then
                        (None, emit (Removed, t) obj (s1\<lparr>entries := AList.delete t (entries s1)\<rparr>))
                      else (Some AttributeError, s1\<lparr>entries := AList.delete t (entries s1)\<rparr>)
                  | Some (Object cur) \<Rightarrow>
                      (let s2 = s1\<lparr>entries := AList.delete t (entries s1)\<rparr>;
                           s3 = (if truthy pb (heap s2 ! cur) then CopyFrom cur obj s2 else s2)
                       in (None, emit (Removed, t)
                                   (if truthy pb (heap s3 ! cur) then cur else obj) s3)))
               else
                 (case getitem t s1 of
                    (Inl e, s2) \<Rightarrow> (Some e, s2)
                  | (Inr (Object cur), s2) \<Rightarrow> (Some AttributeError, s2)
                  | (Inr (Dict d), s2) \<Rightarrow>
                      (case map_of d k of
                         None \<Rightarrow> (None, emit (Removed, t) obj s2)
                       | Some cur \<Rightarrow>
                           (let s3 = s2\<lparr>entries :=
                                  AList.update t (Dict (AList.delete k d)) (entries s2)\<rparr>;
                                s4 = (if truthy pb (heap s3 ! cur) then CopyFrom cur obj s3 else s3)
                            in (None, emit (Removed, t)
                                        (if truthy pb (heap s4 ! cur) then cur else obj) s4))))))"

text \<open>\<open>_handle_update_multiple\<close>: the loop over \<open>message.objects_modified\<close>.\<close>

fun handle_update_multiple ::
  "('p, 'c, 'v) protobufs \<Rightarrow> so_single list \<Rightarrow> ('c, 'v) socache \<Rightarrow>
     py_error option \<times> ('c, 'v) socache" where
  "handle_update_multiple pb [] s = (None, s)"
| "handle_update_multiple pb (so_object # rest) s =
     (case handle_update pb so_object s of
        (Some e, s1) \<Rightarrow> (Some e, s1)
      | (None, s1) \<Rightarrow> handle_update_multiple pb rest s1)"

text \<open>
  \<open>_handle_cache_subscribed\<close>. \<open>subscribed_object_data\<close> is the inner loop over the bytes
  of one group: a logged failure is its \<open>break\<close>. \<open>subscribed_objects\<close> is the outer
  loop over the groups.
\<close>

fun subscribed_object_data ::
  "('p, 'c, 'v) protobufs \<Rightarrow> int \<Rightarrow> bytes list \<Rightarrow> ('c, 'v) socache \<Rightarrow>
     py_error option \<times> ('c, 'v) socache" where
  "subscribed_object_data pb t [] s = (None, s)"
| "subscribed_object_data pb t (object_bytes # rest) s =
     (case update_object pb t object_bytes s of
        (Inl e, s1) \<Rightarrow> (Some e, s1)
      | (Inr None, s1) \<Rightarrow> (None, s1)
      | (Inr (Some (t', obj)), s1) \<Rightarrow> subscribed_object_data pb t rest (emit (New, t') obj s1))"

fun subscribed_objects ::
  "('p, 'c, 'v) protobufs \<Rightarrow> so_group list \<Rightarrow> ('c, 'v) socache \<Rightarrow>
     py_error option \<times> ('c, 'v) socache" where
  "subscribed_objects pb [] s = (None, s)"
| "subscribed_objects pb (g # rest) s =
     (case subscribed_object_data pb (group_type_id g) (group_object_data g) s of
        (Some e, s1) \<Rightarrow> (Some e, s1)
      | (None, s1) \<Rightarrow> subscribed_objects pb rest s1)"

text \<open>
  \<open>set.update\<close> on the list that stands for the set. The list keeps the order of insertion;
  the order in which Python iterates a set is not promised, so what depends on it holds
  for this order only.
\<close>

definition set_update :: "int list \<Rightarrow> int list \<Rightarrow> int list" where
  "set_update old new = foldl (\<lambda>acc x. if x \<in> set acc then acc else acc @ [x]) old new"

definition handle_cache_subscribed ::
  "('p, 'c, 'v) protobufs \<Rightarrow> cache_subscribed \<Rightarrow> ('c, 'v) socache \<Rightarrow>
     py_error option \<times> ('c, 'v) socache" where
  "handle_cache_subscribed pb message s =
     (let cache_key = (owner_type message, owner_id message);
          old_ids = (case map_of (caches s) cache_key of
                       None \<Rightarrow> []
                     | Some cache \<Rightarrow> type_ids cache);
          cache = \<lparr>version = sub_version message,
                   type_ids = set_update old_ids (map group_type_id (objects message))\<rparr>
      in subscribed_objects pb (objects message)
           (s\<lparr>caches := AList.update cache_key cache (caches s)\<rparr>))"

text \<open>
  \<open>_handle_cache_unsubscribed\<close>. \<open>unsubscribed_keys\<close> is the loop over
  \<open>list(field.keys())\<close>, each step \<open>self[type_id].pop(key)\<close> then the emit.
  \<open>unsubscribed_types\<close> is the loop over \<open>cache['type_ids']\<close>; its last statement
  \<open>del self[type_id]\<close> is the plain \<open>dict.__delitem__\<close>, which raises KeyError when the
  type is not in the cache.
\<close>

fun unsubscribed_keys ::
  "int \<Rightarrow> 'v key list \<Rightarrow> ('c, 'v) socache \<Rightarrow> py_error option \<times> ('c, 'v) socache" where
  "unsubscribed_keys t [] s = (None, s)"
| "unsubscribed_keys t (k # rest) s =
     (case getitem t s of
        (Inl e, s1) \<Rightarrow> (Some e, s1)
      | (Inr (Object cur), s1) \<Rightarrow> (Some AttributeError, s1)
      | (Inr (Dict d), s1) \<Rightarrow>
          (case map_of d k of
             None \<Rightarrow> (Some KeyError, s1)
           | Some obj \<Rightarrow>
               unsubscribed_keys t rest
                 (emit (Removed, t) obj
                    (s1\<lparr>entries := AList.update t (Dict (AList.delete k d)) (entries s1)\<rparr>))))"

fun unsubscribed_types ::
  "int list \<Rightarrow> ('c, 'v) socache \<Rightarrow> py_error option \<times> ('c, 'v) socache" where
  "unsubscribed_types [] s = (None, s)"
| "unsubscribed_types (tid # rest) s =
     (if tid \<notin> set (map fst (entries s)) then unsubscribed_types rest s
      else
        (case ESOType tid of
           Inl e \<Rightarrow> (Some e, s)
         | Inr t \<Rightarrow>
             (case getitem t s of
                (Inl e, s1) \<Rightarrow> (Some e, s1)
              | (Inr field, s1) \<Rightarrow>
                  (case (case field of
                           Dict d \<Rightarrow> unsubscribed_keys t (map fst d) s1
                         | Object obj \<Rightarrow>
                             (None, emit (Removed, t) obj
                                      (s1\<lparr>entries := AList.delete t (entries s1)\<rparr>))) of
                     (Some e, s2) \<Rightarrow> (Some e, s2)
                   | (None, s2) \<Rightarrow>
                       (case map_of (entries s2) t of
                          None \<Rightarrow> (Some KeyError, s2)
                        | Some _ \<Rightarrow>
                            unsubscribed_types rest
                              (s2\<lparr>entries := AList.delete t (entries s2)\<rparr>))))))"

definition handle_cache_unsubscribed ::
  "cache_unsubscribed \<Rightarrow> ('c, 'v) socache \<Rightarrow> py_error option \<times> ('c, 'v) socache" where
  "handle_cache_unsubscribed message s =
     (let cache_key = (unsub_owner_type message, unsub_owner_id message) in
      case map_of (caches s) cache_key of
        None \<Rightarrow> (None, s)
      | Some cache \<Rightarrow>
          (case unsubscribed_types (type_ids cache) s of
             (Some e, s1) \<Rightarrow> (Some e, s1)
           | (None, s1) \<Rightarrow> (None, s1\<lparr>caches := AList.delete cache_key (caches s1)\<rparr>)))"

text \<open>\<open>_handle_client_welcome\<close>: the loop over \<open>message.outofdate_subscribed_caches\<close>.\<close>

fun handle_client_welcome ::
  "('p, 'c, 'v) protobufs \<Rightarrow> cache_subscribed list \<Rightarrow> ('c, 'v) socache \<Rightarrow>
     py_error option \<times> ('c, 'v) socache" where
  "handle_client_welcome pb [] s = (None, s)"
| "handle_client_welcome pb (one # rest) s =
     (case handle_cache_subscribed pb one s of
        (Some e, s1) \<Rightarrow> (Some e, s1)
      | (None, s1) \<Rightarrow> handle_client_welcome pb rest s1)"

text \<open>
  The listeners \<open>SOCache.__init__\<close> registers on the client's message channels, as one
  dispatch on the kind of notification.
\<close>

datatype notification =
    Create so_single
  | Update so_single
  | Destroy so_single
  | UpdateMultiple "so_single list"
  | CacheSubscribed cache_subscribed
  | CacheUnsubscribed cache_unsubscribed
  | ClientWelcome "cache_subscribed list"

fun notify ::
  "('p, 'c, 'v) protobufs \<Rightarrow> notification \<Rightarrow> ('c, 'v) socache \<Rightarrow>
     py_error option \<times> ('c, 'v) socache" where
  "notify pb (Create m) s = handle_create pb m s"
| "notify pb (Update m) s = handle_update pb m s"
| "notify pb (Destroy m) s = handle_destroy pb m s"
| "notify pb (UpdateMultiple ms) s = handle_update_multiple pb ms s"
| "notify pb (CacheSubscribed m) s = handle_cache_subscribed pb m s"
| "notify pb (CacheUnsubscribed m) s = handle_cache_unsubscribed m s"
| "notify pb (ClientWelcome ms) s = handle_client_welcome pb ms s"

text \<open>
  Every reference stored in the cache denotes an allocated object, and a dict holds a
  key once.
\<close>

fun container_ok :: "nat \<Rightarrow> 'v container \<Rightarrow> bool" where
  "container_ok n (Object r) = (r < n)"
| "container_ok n (Dict d) = (list_all (\<lambda>r. r < n) (map snd d) \<and> distinct (map fst d))"

definition wf :: "('c, 'v) socache \<Rightarrow> bool" where
  "wf s = (list_all (container_ok (length (heap s))) (map snd (entries s))
           \<and> distinct (map fst (entries s)))"

section \<open>csgo/client.py\<close>

text \<open>
  Modelled from the spec: the enum \<open>GCConnectionStatus\<close> is declared in \<open>csgo.enums\<close>,
  which is not among the sources. The source names its members \<open>HAVE_SESSION\<close> and
  \<open>NO_SESSION\<close>; the spec allows further status values on the wire, kept here as
  \<open>OTHER_STATUS\<close>.
\<close>

datatype GCConnectionStatus = HAVE_SESSION | NO_SESSION | OTHER_STATUS nat

text \<open>
  The argument of \<open>_set_connection_status\<close> is a member of the enum (the calls in the
  client itself) or the integer of a status message. \<open>GCConnectionStatus(status)\<close>
  returns a member as it is and looks an integer up in the enum's value table, which is
  a parameter; an integer that is no member's value raises ValueError.
\<close>

datatype status_arg = Member GCConnectionStatus | Wire int

definition GCConnectionStatus ::
  "(int \<Rightarrow> GCConnectionStatus option) \<Rightarrow> status_arg \<Rightarrow> py_error + GCConnectionStatus" where
  "GCConnectionStatus values a =
     (case a of
        Member m \<Rightarrow> Inr m
      | Wire i \<Rightarrow> (case values i of None \<Rightarrow> Inl ValueError | Some m \<Rightarrow> Inr m))"

text \<open>
  The channels of the client's event emitter: the three named events, a message type
  (\<open>'e\<close> is what \<open>get_emsg_enum\<close> returns), and \<open>Job n\<close> for the string \<open>job_n\<close> with \<open>n\<close>
  printed in decimal. An event carries no argument, a status, or a decoded message
  instance.
\<close>

datatype 'e channel =
    EVENT_CONNECTION_STATUS
  | EVENT_READY
  | EVENT_NOT_READY
  | EMsg 'e
  | Job int

datatype args = NoArgs | StatusArg GCConnectionStatus | MessageArg ref

text \<open>
  The message registry \<open>csgo.msg\<close> and the protobuf runtime are not among the sources:
  \<open>find_proto\<close> gives the message class of a message type or \<open>None\<close>,
  \<open>ParseFromString\<close> the decoded content (\<open>None\<close> when it raises DecodeError),
  \<open>is_message_class\<close> is \<open>issubclass(proto, Message)\<close>, and \<open>fill_and_serialize\<close> is
  \<open>proto_fill_from_dict\<close> followed by \<open>SerializeToString\<close>.
\<close>

record ('e, 'q, 'm, 'd) registry =
  get_emsg_enum :: "int \<Rightarrow> 'e"
  find_proto :: "'e \<Rightarrow> 'q option"
  ParseFromString :: "'q \<Rightarrow> bytes \<Rightarrow> 'm option"
  is_message_class :: "'q \<Rightarrow> bool"
  fill_and_serialize :: "'q \<Rightarrow> 'd \<Rightarrow> bytes"

text \<open>The two job fields of a message header, 64 bits each on the wire.\<close>

record header =
  job_id_source :: "64 word"
  job_id_target :: "64 word"

text \<open>What \<open>GameCoordinator.send\<close> is handed: the message type, the job id, the payload.\<close>

record 'e outgoing =
  out_emsg :: 'e
  out_jobid :: "int option"
  out_payload :: bytes

text \<open>
  The client: its attributes, the cache it owns (\<open>SOBase\<close>), the store of the messages it
  decoded, the log of what it published, the channels with a registered listener (each
  with the listener), and what it sent.
\<close>

record ('c, 'v, 'e, 'm) client =
  connection_status :: GCConnectionStatus
  ready :: bool
  current_jobid :: int
  socache :: "('c, 'v) socache"
  messages :: "'m list"
  published :: "('e channel \<times> args) list"
  listeners :: "('e channel \<times> nat) list"
  sent :: "'e outgoing list"

text \<open>
  The client's \<open>emit\<close>: the publication is logged, and the listener that
  \<open>SOCache.__init__\<close> registered on \<open>EVENT_READY\<close>, \<open>_handle_cleanup\<close>, runs on that event.
  The listeners \<open>SOCache.__init__\<close> registers on message types are \<open>notify\<close> above.
\<close>

definition client_emit ::
  "'e channel \<Rightarrow> args \<Rightarrow> ('c, 'v, 'e, 'm) client \<Rightarrow> ('c, 'v, 'e, 'm) client" where
  "client_emit event a c =
     (let c1 = c\<lparr>published := published c @ [(event, a)]\<rparr> in
      if event = EVENT_READY then c1\<lparr>socache := handle_cleanup (socache c1)\<rparr> else c1)"

definition set_connection_status ::
  "(int \<Rightarrow> GCConnectionStatus option) \<Rightarrow> status_arg \<Rightarrow> ('c, 'v, 'e, 'm) client \<Rightarrow>
     py_error option \<times> ('c, 'v, 'e, 'm) client" where
  "set_connection_status values status c =
     (let prev_status = connection_status c in
      case GCConnectionStatus values status of
        Inl e \<Rightarrow> (Some e, c)
      | Inr st \<Rightarrow>
          (let c1 = c\<lparr>connection_status := st\<rparr>;
               c2 = (if connection_status c1 \<noteq> prev_status
                     then client_emit EVENT_CONNECTION_STATUS (StatusArg (connection_status c1)) c1
                     else c1)
           in (None,
               if connection_status c2 = HAVE_SESSION \<and> \<not> ready c2
               then client_emit EVENT_READY NoArgs (c2\<lparr>ready := True\<rparr>)
               else if connection_status c2 \<noteq> HAVE_SESSION \<and> ready c2
               then client_emit EVENT_NOT_READY NoArgs (c2\<lparr>ready := False\<rparr>)
               else c2)))"

text \<open>A notification delivered to the cache the client owns.\<close>

definition deliver ::
  "('p, 'c, 'v) protobufs \<Rightarrow> notification \<Rightarrow> ('c, 'v, 'e, 'm) client \<Rightarrow>
     ('c, 'v, 'e, 'm) client" where
  "deliver pb n c = c\<lparr>socache := snd (notify pb n (socache c))\<rparr>"

definition process_gc_message ::
  "('e, 'q, 'm, 'd) registry \<Rightarrow> int \<Rightarrow> header \<Rightarrow> bytes \<Rightarrow> ('c, 'v, 'e, 'm) client \<Rightarrow>
     py_error option \<times> ('c, 'v, 'e, 'm) client" where
  "process_gc_message reg emsg hdr payload c =
     (let emsg' = get_emsg_enum reg emsg in
      case find_proto reg emsg' of
        None \<Rightarrow> (None, c)
      | Some proto \<Rightarrow>
          (case ParseFromString reg proto payload of
             None \<Rightarrow> (Some DecodeError, c)
           | Some m \<Rightarrow>
               (let message = length (messages c);
                    c1 = c\<lparr>messages := messages c @ [m]\<rparr>;
                    c2 = client_emit (EMsg emsg') (MessageArg message) c1
                in (None,
                    if job_id_target hdr \<noteq> 18446744073709551615
                    then client_emit (Job (uint (job_id_target hdr))) (MessageArg message) c2
                    else c2))))"

text \<open>
  \<open>_send\<close>. The data argument is \<open>None\<close>, a dict, or something else (ValueError); the
  proto argument is \<open>None\<close> or a class.
\<close>

datatype 'd data_arg = DataNone | DataDict 'd | DataOther

definition send_impl ::
  "('e, 'q, 'm, 'd) registry \<Rightarrow> 'd \<Rightarrow> 'e \<Rightarrow> 'd data_arg \<Rightarrow> 'q option \<Rightarrow> int option \<Rightarrow>
     ('c, 'v, 'e, 'm) client \<Rightarrow> py_error option \<times> ('c, 'v, 'e, 'm) client" where
  "send_impl reg empty_dict emsg data proto jobid c =
     (case (case data of DataNone \<Rightarrow> Some empty_dict | DataDict d \<Rightarrow> Some d | DataOther \<Rightarrow> None) of
        None \<Rightarrow> (Some ValueError, c)
      | Some d \<Rightarrow>
          (case (case proto of None \<Rightarrow> find_proto reg emsg | Some q \<Rightarrow> Some q) of
             None \<Rightarrow> (Some ValueError, c)
           | Some q \<Rightarrow>
               if \<not> is_message_class reg q then (Some ValueError, c)
               else (None, c\<lparr>sent := sent c @
                       [\<lparr>out_emsg = emsg, out_jobid = jobid,
                         out_payload = fill_and_serialize reg q d\<rparr>]\<rparr>)))"

text \<open>
  \<open>send_job\<close>: the counter is advanced and the listeners of the job's channel are
  removed before \<open>_send\<close> runs, so both happen also when \<open>_send\<close> raises.
\<close>

definition send_job ::
  "('e, 'q, 'm, 'd) registry \<Rightarrow> 'd \<Rightarrow> 'e \<Rightarrow> 'd data_arg \<Rightarrow> 'q option \<Rightarrow>
     ('c, 'v, 'e, 'm) client \<Rightarrow> (py_error + 'e channel) \<times> ('c, 'v, 'e, 'm) client" where
  "send_job reg empty_dict emsg data proto c =
     (let n = (current_jobid c + 1) mod 10000;
          c1 = c\<lparr>current_jobid := (if n = 0 then 1 else n)\<rparr>;
          jobid_str = Job (current_jobid c1);
          c2 = c1\<lparr>listeners := filter (\<lambda>l. fst l \<noteq> jobid_str) (listeners c1)\<rparr>
      in case send_impl reg empty_dict emsg data proto (Some (current_jobid c2)) c2 of
           (Some e, c3) \<Rightarrow> (Inl e, c3)
         | (None, c3) \<Rightarrow> (Inr jobid_str, c3))"

section \<open>csgo/sharecode.py\<close>

definition dictionary :: string where
  "dictionary = ''ABCDEFGHJKLMNOPQRSTUVWXYZabcdefhijkmnopqrstuvwxyz23456789''"

definition DICTIONARY_LENGTH :: int where
  "DICTIONARY_LENGTH = int (length dictionary)"

definition bitmask64 :: int where
  "bitmask64 = 2 ^ 64 - 1"

text \<open>\<open>_swap_endianness\<close>: the loop over \<open>range(0, 144, 8)\<close>.\<close>

definition swap_endianness :: "int \<Rightarrow> int" where
  "swap_endianness number =
     foldl (\<lambda>result n. push_bit 8 result + (drop_bit n number AND 255)) 0
       (map (\<lambda>i. 8 * i) [0..<18])"

text \<open>
  \<open>CODE_PATTERN.match(code)\<close> for the pattern \<open>CSGO(-[{dictionary}]{5}){5}$\<close>: the braces
  around the dictionary stand inside the character class, so they belong to it; \<open>$\<close>
  matches at the end of the string and before a newline that ends it.
\<close>

definition in_class :: "char \<Rightarrow> bool" where
  "in_class c = (c \<in> set (''{'' @ dictionary @ ''}''))"

fun match_groups :: "nat \<Rightarrow> string \<Rightarrow> string option" where
  "match_groups 0 s = Some s"
| "match_groups (Suc n) (d # c1 # c2 # c3 # c4 # c5 # rest) =
     (if d = CHR ''-'' \<and> list_all in_class [c1, c2, c3, c4, c5]
      then match_groups n rest else None)"
| "match_groups (Suc n) s = None"

definition CODE_PATTERN_match :: "string \<Rightarrow> bool" where
  "CODE_PATTERN_match code =
     (take 4 code = ''CSGO'' \<and>
      (case match_groups 5 (drop 4 code) of
         None \<Rightarrow> False
       | Some rest \<Rightarrow> rest = [] \<or> rest = [CHR 0x0A]))"

text \<open>\<open>dictionary.index(c)\<close>: the first position of \<open>c\<close>, ValueError when absent.\<close>

fun index :: "string \<Rightarrow> char \<Rightarrow> py_error + int" where
  "index [] c = Inl ValueError"
| "index (x # xs) c =
     (if x = c then Inr 0
      else (case index xs c of Inl e \<Rightarrow> Inl e | Inr i \<Rightarrow> Inr (i + 1)))"

definition removeprefix :: "string \<Rightarrow> string \<Rightarrow> string" where
  "removeprefix pre s = (if take (length pre) s = pre then drop (length pre) s else s)"

text \<open>The loop of \<open>decode\<close> over the characters it is given (the reversed code).\<close>

fun decode_loop :: "string \<Rightarrow> int \<Rightarrow> py_error + int" where
  "decode_loop [] num = Inr num"
| "decode_loop (c # cs) num =
     (case index dictionary c of
        Inl e \<Rightarrow> Inl e
      | Inr i \<Rightarrow> decode_loop cs (num * DICTIONARY_LENGTH + i))"

record sharecode =
  matchid :: int
  outcomeid :: int
  token :: int

definition decode :: "string \<Rightarrow> py_error + sharecode" where
  "decode code =
     (if \<not> CODE_PATTERN_match code then Inl ValueError
      else
        (let code' = filter (\<lambda>c. c \<noteq> CHR ''-'') (removeprefix ''CSGO'' code) in
         case decode_loop (rev code') 0 of
           Inl e \<Rightarrow> Inl e
         | Inr num \<Rightarrow>
             (let num' = swap_endianness num in
              Inr \<lparr>matchid = num' AND bitmask64,
                   outcomeid = drop_bit 64 num' AND bitmask64,
                   token = drop_bit 128 num' AND 65535\<rparr>)))"

text \<open>The loop of \<open>encode\<close>, \<open>k\<close> rounds of \<open>divmod\<close>.\<close>

fun encode_loop :: "nat \<Rightarrow> int \<Rightarrow> string \<Rightarrow> string" where
  "encode_loop 0 num code = code"
| "encode_loop (Suc k) num code =
     encode_loop k (num div DICTIONARY_LENGTH)
       (code @ [dictionary ! nat (num mod DICTIONARY_LENGTH)])"

definition encode :: "int \<Rightarrow> int \<Rightarrow> int \<Rightarrow> string" where
  "encode m oc tk =
     (let num = swap_endianness (push_bit 128 tk OR push_bit 64 oc OR m);
          code = encode_loop 25 num []
      in ''CSGO-'' @ take 5 code @ ''-'' @ take 5 (drop 5 code) @ ''-'' @
         take 5 (drop 10 code) @ ''-'' @ take 5 (drop 15 code) @ ''-'' @ drop 20 code)"

section \<open>Observing the cache\<close>

text \<open>
  The key kind of a type id: \<open>None\<close> when no class is found for it, else the key fields
  of the class (\<open>Fields []\<close> is the kind without a defined key).
\<close>

definition key_kind :: "('p, 'c, 'v) protobufs \<Rightarrow> int \<Rightarrow> key_fields option" where
  "key_kind pb t = map_option (get_so_key_fields pb) (get_proto_for_type pb t)"

text \<open>
  The containers fit the key kinds of their types: an object stands in the cache itself
  only under a type without key, and a dict with entries only under a type with key
  fields.
\<close>

fun container_typed :: "('p, 'c, 'v) protobufs \<Rightarrow> int \<Rightarrow> 'v container \<Rightarrow> bool" where
  "container_typed pb t (Object a) = (key_kind pb t = Some NO_KEY)"
| "container_typed pb t (Dict d) = (d = [] \<or> key_kind pb t \<noteq> Some NO_KEY)"

definition typed :: "('p, 'c, 'v) protobufs \<Rightarrow> ('c, 'v) socache \<Rightarrow> bool" where
  "typed pb s = list_all (\<lambda>e. container_typed pb (fst e) (snd e)) (entries s)"

text \<open>
  Every instance the cache stores for a type and a key (\<open>KNoKey\<close> for a type without
  key), whichever entry holds it.
\<close>

definition instances :: "int \<Rightarrow> 'v key \<Rightarrow> ('c, 'v) socache \<Rightarrow> ref list" where
  "instances t k s =
     concat (map (\<lambda>e. case snd e of
                         Object a \<Rightarrow> (if k = KNoKey then [a] else [])
                       | Dict d \<Rightarrow> map snd (filter (\<lambda>x. fst x = k) d))
               (filter (\<lambda>e. fst e = t) (entries s)))"

section \<open>Numbers as lists of digits\<close>

text \<open>
  Not part of the program: the notions in which the properties of share codes are proved.
  \<open>le_digits B k x\<close> lists the \<open>k\<close> lowest digits of \<open>x\<close> in base \<open>B\<close>, the lowest first, and
  \<open>le_value B ds\<close> is the number with the digits \<open>ds\<close>. \<open>_swap_endianness\<close> reads a number
  in base 256 and \<open>encode\<close> writes one in base 57.
\<close>

fun le_digits :: "int \<Rightarrow> nat \<Rightarrow> int \<Rightarrow> int list" where
  "le_digits B 0 x = []"
| "le_digits B (Suc k) x = (x mod B) # le_digits B k (x div B)"

fun le_value :: "int \<Rightarrow> int list \<Rightarrow> int" where
  "le_value B [] = 0"
| "le_value B (d # ds) = d + B * le_value B ds"

definition digits_ok :: "int \<Rightarrow> int list \<Rightarrow> bool" where
  "digits_ok B ds = list_all (\<lambda>d. 0 \<le> d \<and> d < B) ds"

text \<open>The character \<open>encode\<close> writes for a digit.\<close>

definition digit_char :: "int \<Rightarrow> char" where
  "digit_char d = dictionary ! nat d"

text \<open>The string \<open>encode\<close> returns for the code its loop has built.\<close>

definition formatted :: "string \<Rightarrow> string" where
  "formatted code =
     ''CSGO-'' @ take 5 code @ ''-'' @ take 5 (drop 5 code) @ ''-'' @
     take 5 (drop 10 code) @ ''-'' @ take 5 (drop 15 code) @ ''-'' @ drop 20 code"

section \<open>Initial states\<close>

text \<open>\<open>SOCache.__init__\<close>: the cache starts as an empty dict without subscriptions.\<close>

definition SOCache_init :: "('c, 'v) socache" where
  "SOCache_init = \<lparr>entries = [], caches = [], heap = [], emitted = []\<rparr>"

text \<open>
  The class attributes of \<open>CSGOClient\<close> and its constructor: no session, not ready,
  job counter 0, a new cache.
\<close>

definition CSGOClient_init :: "('c, 'v, 'e, 'm) client" where
  "CSGOClient_init =
     \<lparr>connection_status = NO_SESSION, ready = False, current_jobid = 0,
      socache = SOCache_init, messages = [], published = [], listeners = [], sent = []\<rparr>"

section \<open>Instances of the parameters\<close>

text \<open>
  A small instance of the protobuf modules, to run the functions on concrete input.
  A class is its name and a field value is a number. The content of an object is the list
  of the numbers of its bytes, every field reads the first of them, and bytes that
  contain 255 do not decode. \<open>_gc_base\<close> has the three classes of the table and
  \<open>CSOItemRecipe\<close>, which has no key field; \<open>_gc_cstrike\<close> has \<open>CSOPersonaDataPublic\<close>
  and \<open>CSOQuestProgress\<close>, whose fields \<open>account_id\<close> and \<open>quest_id\<close> are key fields.
\<close>

definition example_protobufs :: "(string, nat list, nat) protobufs" where
  "example_protobufs =
     \<lparr>gc_base = (\<lambda>name. if name \<in> set [''CSOEconItem'', ''CSOEconGameAccountClient'',
                                        ''CSOEconItemEventTicket'', ''CSOItemRecipe'']
                          then Some name else None),
      gc_cstrike = (\<lambda>name. if name \<in> set [''CSOPersonaDataPublic'', ''CSOQuestProgress'']
                             then Some name else None),
      key_field_options = (\<lambda>p. if p = ''CSOQuestProgress'' then [''account_id'', ''quest_id''] else []),
      FromString = (\<lambda>p data. if 255 \<in> set data then None else Some data),
      getattr = (\<lambda>c f. case c of [] \<Rightarrow> 0 | x # _ \<Rightarrow> x),
      truthy = (\<lambda>c. True)\<rparr>"



text \<open>An instance of the value table of \<open>GCConnectionStatus\<close>.\<close>

definition example_status_values :: "int \<Rightarrow> GCConnectionStatus option" where
  "example_status_values i =
     (if i = 0 then Some HAVE_SESSION
      else if i = 2 then Some NO_SESSION
      else if i = 1 \<or> i = 3 \<or> i = 4 then Some (OTHER_STATUS (nat i))
      else None)"

text \<open>
  An instance of the message registry: message types are their numbers, the types 4004
  and 9100 have a class, and a payload decodes to itself.
\<close>

definition example_registry :: "(int, int, nat list, nat list) registry" where
  "example_registry =
     \<lparr>get_emsg_enum = (\<lambda>i. i),
      find_proto = (\<lambda>e. if e = 4004 \<or> e = 9100 then Some e else None),
      ParseFromString = (\<lambda>q payload. Some payload),
      is_message_class = (\<lambda>q. True),
      fill_and_serialize = (\<lambda>q d. d)\<rparr>"

text \<open>
  A client that became ready and then received a Cache-subscribed notification of owner
  (1, 42) with one object of type 7 (a type without key) and two of type 1 (keyed by
  \<open>id\<close>).
\<close>

definition example_subscription :: cache_subscribed where
  "example_subscription =
     \<lparr>owner_type = 1, owner_id = 42, sub_version = 3,
      objects = [\<lparr>group_type_id = 7, group_object_data = [[5, 6]]\<rparr>,
                 \<lparr>group_type_id = 1, group_object_data = [[10, 1], [11, 2]]\<rparr>]\<rparr>"

definition example_ready_client :: "(nat list, nat, int, nat list) client" where
  "example_ready_client =
     deliver example_protobufs (CacheSubscribed example_subscription)
       (snd (set_connection_status example_status_values (Wire 0) CSGOClient_init))"

chapter \<open>Properties\<close>

section \<open>The job id allocator\<close>

lemma send_impl_jobid:
  "current_jobid (snd (send_impl reg e0 emsg data proto j c)) = current_jobid c"
  by (simp add: send_impl_def split: option.splits data_arg.splits)

lemma send_impl_result:
  "fst (send_impl reg e0 emsg data proto j c) = None
   \<or> fst (send_impl reg e0 emsg data proto j c) = Some ValueError"
  by (simp add: send_impl_def split: option.splits data_arg.splits)

lemma send_job_alt:
  "send_job reg e0 emsg data proto c =
     (let j = (if (current_jobid c + 1) mod 10000 = 0 then 1 else (current_jobid c + 1) mod 10000);
          r = send_impl reg e0 emsg data proto (Some j)
                (c\<lparr>current_jobid := j,
                   listeners := filter (\<lambda>l. fst l \<noteq> Job j) (listeners c)\<rparr>)
      in (case fst r of Some e \<Rightarrow> Inl e | None \<Rightarrow> Inr (Job j), snd r))"
  by (simp add: send_job_def Let_def split: prod.splits option.splits)

lemma send_job_jobid:
  "current_jobid (snd (send_job reg e0 emsg data proto c)) =
     (if (current_jobid c + 1) mod 10000 = 0 then 1 else (current_jobid c + 1) mod 10000)"
  by (simp add: send_job_alt Let_def send_impl_jobid)

lemma send_job_result:
  "fst (send_job reg e0 emsg data proto c) =
     Inr (Job (current_jobid (snd (send_job reg e0 emsg data proto c))))
   \<or> fst (send_job reg e0 emsg data proto c) = Inl ValueError"
proof -
  define j where
    "j = (if (current_jobid c + 1) mod 10000 = 0 then 1 else (current_jobid c + 1) mod 10000)"
  define r where
    "r = send_impl reg e0 emsg data proto (Some j)
           (c\<lparr>current_jobid := j, listeners := filter (\<lambda>l. fst l \<noteq> Job j) (listeners c)\<rparr>)"
  have sj: "send_job reg e0 emsg data proto c =
              (case fst r of Some e \<Rightarrow> Inl e | None \<Rightarrow> Inr (Job j), snd r)"
    unfolding send_job_alt r_def j_def Let_def ..
  have res: "fst r = None \<or> fst r = Some ValueError"
    unfolding r_def by (rule send_impl_result)
  have "current_jobid (snd r) = j"
    unfolding r_def by (simp add: send_impl_jobid)
  with res show ?thesis
    by (auto simp: sj)
qed

text \<open>
  C6. Whatever the counter holds before (any integer), the id that \<open>send_job\<close>
  allocates lies in 1..9999, so it is never 0. The id of the next allocation is the
  successor of this one, except that 1 follows 9999; so the ids increase strictly up
  to the wrap. The handle returned is the channel of the allocated id, unless \<open>_send\<close>
  raised ValueError (the id is allocated all the same).
\<close>

theorem send_job_ids:
  fixes c :: "('c, 'v, 'e, 'm) client"
  shows "let r1 = send_job reg e0 emsg data proto c;
             j1 = current_jobid (snd r1);
             j2 = current_jobid (snd (send_job reg e0' emsg' data' proto' (snd r1)))
         in 1 \<le> j1 \<and> j1 \<le> 9999
            \<and> j2 = (if j1 = 9999 then 1 else j1 + 1)
            \<and> (j1 = 9999 \<or> j1 < j2)
            \<and> (fst r1 = Inr (Job j1) \<or> fst r1 = Inl ValueError)"
proof -
  define j where "j = (current_jobid c + 1) mod 10000"
  have b: "0 \<le> j" "j < 10000" by (simp_all add: j_def)
  show ?thesis
    using b send_job_result [of reg e0 emsg data proto c]
    unfolding Let_def send_job_jobid j_def [symmetric]
    by auto
qed

section \<open>Reading the cache\<close>

lemma update_absent: "map_of al k = None \<Longrightarrow> AList.update k v al = al @ [(k, v)]"
  by (induction al) (auto split: if_splits)

text \<open>
  C10. \<open>socache[x]\<close> raises KeyError exactly when \<open>x\<close> is not the value of a member of
  ESOType. For a member the lookup returns a value and raises nothing: when the type is
  absent from the cache an empty dict is stored under it (at the end of the cache) and
  returned, also for a type without key; when it is present the stored container is
  returned and the cache is unchanged.
\<close>

theorem getitem_lookup:
  "(fst (getitem x s) = Inl KeyError \<longleftrightarrow> x \<notin> set (map snd ESOType_members))
   \<and> (x \<in> set (map snd ESOType_members) \<longrightarrow>
        (\<exists>v. fst (getitem x s) = Inr v
           \<and> map_of (entries (snd (getitem x s))) x = Some v
           \<and> (case map_of (entries s) x of
                 None \<Rightarrow> v = Dict [] \<and> snd (getitem x s) = s\<lparr>entries := entries s @ [(x, Dict [])]\<rparr>
               | Some w \<Rightarrow> v = w \<and> snd (getitem x s) = s)))"
proof (cases "x \<in> set (map snd ESOType_members)")
  case False
  then show ?thesis
    by (simp add: getitem_def ESOType_def)
next
  case True
  then have E: "ESOType x = Inr x"
    by (simp add: ESOType_def)
  show ?thesis
  proof (cases "map_of (entries s) x")
    case None
    then have "AList.update x (Dict []) (entries s) = entries s @ [(x, Dict [])]"
      by (rule update_absent)
    with None True E show ?thesis
      by (simp add: getitem_def map_add_def)
  next
    case (Some w)
    with True E show ?thesis
      by (simp add: getitem_def)
  qed
qed

text \<open>
  In a new cache, reading type 7 (\<open>CSOEconGameAccountClient\<close>, a type without key) gives
  an empty dict, which is then stored; reading 3, no member's value, raises KeyError.
\<close>

theorem getitem_lookup_witness:
  "fst (getitem 7 (SOCache_init :: (nat, nat) socache)) = Inr (Dict [])
   \<and> entries (snd (getitem 7 (SOCache_init :: (nat, nat) socache))) = [(7, Dict [])]
   \<and> fst (getitem 3 (SOCache_init :: (nat, nat) socache)) = Inl KeyError"
  using getitem_lookup [of 7 "SOCache_init :: (nat, nat) socache"]
     getitem_lookup [of 3 "SOCache_init :: (nat, nat) socache"]
  by (simp add: SOCache_init_def ESOType_members_def)

section \<open>The dispatcher\<close>

lemma client_emit_simps:
  "published (client_emit ev a c) = published c @ [(ev, a)]"
  "messages (client_emit ev a c) = messages c"
  "ready (client_emit ev a c) = ready c"
  "connection_status (client_emit ev a c) = connection_status c"
  "current_jobid (client_emit ev a c) = current_jobid c"
  "socache (client_emit ev a c) = (if ev = EVENT_READY then handle_cleanup (socache c) else socache c)"
  by (simp_all add: client_emit_def Let_def)

text \<open>
  C7. When the message type has a class and the payload decodes, the frame's record is
  one new instance and the call raises nothing. If the header's target job id is the
  sentinel \<open>2^64 - 1\<close>, the call publishes that instance once, on the channel of the message
  type, and on no job channel. Otherwise it publishes the same instance twice: on the
  channel of the message type and then on the job channel of the target id as an unsigned
  64-bit number (not reduced modulo 10000).
\<close>

theorem process_gc_message_publishes:
  assumes "find_proto reg (get_emsg_enum reg emsg) = Some proto"
    and "ParseFromString reg proto payload = Some m"
  shows "let r = process_gc_message reg emsg hdr payload c;
             message = length (messages c)
         in fst r = None
            \<and> messages (snd r) = messages c @ [m]
            \<and> published (snd r) = published c @
                 (if job_id_target hdr = 2 ^ 64 - 1
                  then [(EMsg (get_emsg_enum reg emsg), MessageArg message)]
                  else [(EMsg (get_emsg_enum reg emsg), MessageArg message),
                        (Job (uint (job_id_target hdr)), MessageArg message)])"
  using assms
  by (simp add: process_gc_message_def Let_def client_emit_simps)

text \<open>
  With the sentinel the only publication is on the type channel 9100; with target
  70000 the same instance 0 is published on channel 9100 and on \<open>job_70000\<close>.
\<close>

theorem process_gc_message_publishes_witness:
  "published (snd (process_gc_message example_registry 9100
        \<lparr>job_id_source = 0, job_id_target = 2 ^ 64 - 1\<rparr> [1, 2]
        (CSGOClient_init :: (nat, nat, int, nat list) client)))
     = [(EMsg 9100, MessageArg 0)]
   \<and> published (snd (process_gc_message example_registry 9100
        \<lparr>job_id_source = 0, job_id_target = 70000\<rparr> [1, 2]
        (CSGOClient_init :: (nat, nat, int, nat list) client)))
     = [(EMsg 9100, MessageArg 0), (Job 70000, MessageArg 0)]"
  using process_gc_message_publishes [of example_registry 9100 9100 "[1, 2]" "[1, 2]"
          "\<lparr>job_id_source = 0, job_id_target = 2 ^ 64 - 1\<rparr>" "CSGOClient_init :: (nat, nat, int, nat list) client"]
        process_gc_message_publishes [of example_registry 9100 9100 "[1, 2]" "[1, 2]"
          "\<lparr>job_id_source = 0, job_id_target = 70000\<rparr>" "CSGOClient_init :: (nat, nat, int, nat list) client"]
  by (simp add: example_registry_def CSGOClient_init_def Let_def)

section \<open>The connection status\<close>

lemma set_connection_status_not_ready:
  assumes "ready c" and "GCConnectionStatus values status = Inr st" and "st \<noteq> HAVE_SESSION"
  shows "set_connection_status values status c =
     (None, c\<lparr>connection_status := st, ready := False,
               published := published c @
                 (if st \<noteq> connection_status c then [(EVENT_CONNECTION_STATUS, StatusArg st)] else [])
                 @ [(EVENT_NOT_READY, NoArgs)]\<rparr>)"
  using assms
  by (simp add: set_connection_status_def Let_def client_emit_def)

lemma set_connection_status_ready:
  assumes "\<not> ready c" and "GCConnectionStatus values status = Inr HAVE_SESSION"
  shows "set_connection_status values status c =
     (None, c\<lparr>connection_status := HAVE_SESSION, ready := True,
               published := published c @
                 (if HAVE_SESSION \<noteq> connection_status c
                  then [(EVENT_CONNECTION_STATUS, StatusArg HAVE_SESSION)] else [])
                 @ [(EVENT_READY, NoArgs)],
               socache := handle_cleanup (socache c)\<rparr>)"
  using assms
  by (simp add: set_connection_status_def Let_def client_emit_def)

lemma example_ready_client_eval:
  "example_ready_client =
     \<lparr>connection_status = HAVE_SESSION, ready = True, current_jobid = 0,
      socache = \<lparr>entries = [(7, Object 0), (1, Dict [(KVal 10, 1), (KVal 11, 2)])],
                 caches = [((1, 42), \<lparr>version = 3, type_ids = [7, 1]\<rparr>)],
                 heap = [[5, 6], [10, 1], [11, 2]],
                 emitted = [((New, 7), 0), ((New, 1), 1), ((New, 1), 2)]\<rparr>,
      messages = [],
      published = [(EVENT_CONNECTION_STATUS, StatusArg HAVE_SESSION), (EVENT_READY, NoArgs)],
      listeners = [], sent = []\<rparr>"
  by code_simp

text \<open>
  C5, as stated, fails. The example client is ready and its cache holds three objects and
  one Subscription Record; the status message 2 (\<open>NO_SESSION\<close>) makes it not ready, and
  the containers and the record are all still there afterwards: nothing was cleaned up.
\<close>

theorem not_ready_no_cleanup_counterexample:
  "ready example_ready_client
   \<and> \<not> ready (snd (set_connection_status example_status_values (Wire 2) example_ready_client))
   \<and> entries (socache (snd (set_connection_status example_status_values (Wire 2) example_ready_client)))
       = [(7, Object 0), (1, Dict [(KVal 10, 1), (KVal 11, 2)])]
   \<and> map fst (caches (socache (snd (set_connection_status example_status_values (Wire 2) example_ready_client))))
       = [(1, 42)]"
  by code_simp

text \<open>
  C5, amended. When a ready client is given a status other than \<open>HAVE_SESSION\<close>, it
  becomes not ready and publishes \<open>EVENT_NOT_READY\<close> exactly once (after
  \<open>EVENT_CONNECTION_STATUS\<close>, if the status changed) and nothing else; this transition
  leaves the cache as it is. The cleanup is bound to \<open>EVENT_READY\<close>: it runs when a client
  that is not ready is given \<open>HAVE_SESSION\<close>, and then clears every container and every
  Subscription Record.
\<close>

theorem not_ready_emitted_once:
  "(ready c \<and> GCConnectionStatus values status = Inr st \<and> st \<noteq> HAVE_SESSION \<longrightarrow>
      (let r = set_connection_status values status c in
         fst r = None \<and> \<not> ready (snd r)
         \<and> published (snd r) = published c @
              (if st \<noteq> connection_status c then [(EVENT_CONNECTION_STATUS, StatusArg st)] else [])
              @ [(EVENT_NOT_READY, NoArgs)]
         \<and> socache (snd r) = socache c))
   \<and> (\<not> ready c \<and> GCConnectionStatus values status = Inr HAVE_SESSION \<longrightarrow>
      (let r = set_connection_status values status c in
         fst r = None \<and> ready (snd r)
         \<and> socache (snd r) = handle_cleanup (socache c)
         \<and> entries (socache (snd r)) = [] \<and> caches (socache (snd r)) = []))"
  by (simp add: set_connection_status_not_ready set_connection_status_ready handle_cleanup_def)

text \<open>
  On the example client, status 2 publishes the status change and \<open>EVENT_NOT_READY\<close> once
  and keeps the cache; status 0 after it empties the cache.
\<close>

theorem not_ready_emitted_once_witness:
  "published (snd (set_connection_status example_status_values (Wire 2) example_ready_client))
     = [(EVENT_CONNECTION_STATUS, StatusArg HAVE_SESSION), (EVENT_READY, NoArgs),
        (EVENT_CONNECTION_STATUS, StatusArg NO_SESSION), (EVENT_NOT_READY, NoArgs)]
   \<and> socache (snd (set_connection_status example_status_values (Wire 2) example_ready_client))
     = socache example_ready_client
   \<and> entries (socache (snd (set_connection_status example_status_values (Wire 0)
        (snd (set_connection_status example_status_values (Wire 2) example_ready_client))))) = []"
proof -
  define c1 where "c1 = snd (set_connection_status example_status_values (Wire 2) example_ready_client)"
  have h: "ready example_ready_client" "GCConnectionStatus example_status_values (Wire 2) = Inr NO_SESSION"
       "NO_SESSION \<noteq> HAVE_SESSION" "connection_status example_ready_client = HAVE_SESSION"
       "published example_ready_client = [(EVENT_CONNECTION_STATUS, StatusArg HAVE_SESSION), (EVENT_READY, NoArgs)]"
    by (simp_all add: example_ready_client_eval GCConnectionStatus_def example_status_values_def)
  have 1: "\<not> ready c1 \<and> published c1 = [(EVENT_CONNECTION_STATUS, StatusArg HAVE_SESSION), (EVENT_READY, NoArgs),
        (EVENT_CONNECTION_STATUS, StatusArg NO_SESSION), (EVENT_NOT_READY, NoArgs)]
        \<and> socache c1 = socache example_ready_client"
    using not_ready_emitted_once [of example_ready_client example_status_values "Wire 2" NO_SESSION] h
    by (simp add: Let_def c1_def)
  have h2: "GCConnectionStatus example_status_values (Wire 0) = Inr HAVE_SESSION"
    by (simp add: GCConnectionStatus_def example_status_values_def)
  have 2: "entries (socache (snd (set_connection_status example_status_values (Wire 0) c1))) = []"
    using not_ready_emitted_once [of c1 example_status_values "Wire 0" NO_SESSION] 1 h2
    by (simp add: Let_def handle_cleanup_def)
  show ?thesis
    using 1 2 by (simp add: c1_def)
qed

lemma deliver_ready: "ready (deliver pb n c) = ready c"
  by (simp add: deliver_def)

lemma foldl_deliver_ready: "ready (foldl (\<lambda>c n. deliver pb n c) c ns) = ready c"
  by (induction ns arbitrary: c) (simp_all add: deliver_ready)

text \<open>
  C4. A ready client is given a status other than \<open>HAVE_SESSION\<close>, then any notifications
  are delivered to its cache, then it is given \<open>HAVE_SESSION\<close>. It is not ready in between
  and ready at the end, and at the end the cache has no container and no Subscription
  Record: whatever was stored before the cycle, or during it, is gone.
\<close>

theorem ready_cycle_clears_cache:
  assumes "ready c"
    and "GCConnectionStatus values down = Inr st" and "st \<noteq> HAVE_SESSION"
    and "GCConnectionStatus values up = Inr HAVE_SESSION"
  shows "let c1 = snd (set_connection_status values down c);
             c2 = foldl (\<lambda>c n. deliver pb n c) c1 ns;
             c3 = snd (set_connection_status values up c2)
         in \<not> ready c1 \<and> \<not> ready c2 \<and> ready c3
            \<and> entries (socache c3) = [] \<and> caches (socache c3) = []"
proof -
  define c1 where "c1 = snd (set_connection_status values down c)"
  define c2 where "c2 = foldl (\<lambda>c n. deliver pb n c) c1 ns"
  have r1: "\<not> ready c1"
    unfolding c1_def by (simp add: set_connection_status_not_ready [OF assms(1,2,3)])
  then have r2: "\<not> ready c2"
    unfolding c2_def by (simp add: foldl_deliver_ready)
  show ?thesis
    unfolding Let_def c1_def [symmetric] c2_def [symmetric]
    using r1 r2 by (simp add: set_connection_status_ready [OF r2 assms(4)] handle_cleanup_def)
qed

text \<open>
  The example client loses its session, an object is created meanwhile (the cache then
  holds four objects), and the session comes back: the cache is empty.
\<close>

theorem ready_cycle_clears_cache_witness:
  "(let c1 = snd (set_connection_status example_status_values (Wire 2) example_ready_client);
        c2 = foldl (\<lambda>c n. deliver example_protobufs n c) c1
               [Create \<lparr>type_id = 1, object_data = [12, 0]\<rparr>];
        c3 = snd (set_connection_status example_status_values (Member HAVE_SESSION) c2)
    in entries (socache c2) = [(7, Object 0), (1, Dict [(KVal 10, 1), (KVal 11, 2), (KVal 12, 3)])]
       \<and> \<not> ready c1 \<and> \<not> ready c2 \<and> ready c3
       \<and> entries (socache c3) = [] \<and> caches (socache c3) = [])"
proof -
  have h: "ready example_ready_client" "GCConnectionStatus example_status_values (Wire 2) = Inr NO_SESSION"
       "NO_SESSION \<noteq> HAVE_SESSION"
       "GCConnectionStatus example_status_values (Member HAVE_SESSION) = Inr HAVE_SESSION"
    by (simp_all add: example_ready_client_eval GCConnectionStatus_def example_status_values_def)
  have e: "entries (socache (foldl (\<lambda>c n. deliver example_protobufs n c)
             (snd (set_connection_status example_status_values (Wire 2) example_ready_client))
               [Create \<lparr>type_id = 1, object_data = [12, 0]\<rparr>]))
           = [(7, Object 0), (1, Dict [(KVal 10, 1), (KVal 11, 2), (KVal 12, 3)])]"
    by code_simp
  show ?thesis
    using ready_cycle_clears_cache [OF h, of example_protobufs "[Create \<lparr>type_id = 1, object_data = [12, 0]\<rparr>]"] e
    by (simp add: Let_def)
qed

section \<open>The cache: stored instances and well-formed states\<close>

lemma filter_key_distinct:
  "distinct (map fst al) \<Longrightarrow> map_of al k = Some v \<Longrightarrow> filter (\<lambda>e. fst e = k) al = [(k, v)]"
proof (induction al)
  case Nil
  then show ?case by simp
next
  case (Cons x al)
  show ?case
  proof (cases "fst x = k")
    case True
    from Cons.prems True have "k \<notin> fst ` set al"
      by simp
    then have "filter (\<lambda>e. fst e = k) al = []"
      by (auto simp: filter_empty_conv)
    with True Cons.prems show ?thesis
      by (cases x) auto
  next
    case False
    with Cons show ?thesis by auto
  qed
qed

lemma filter_key_absent:
  "map_of al k = None \<Longrightarrow> filter (\<lambda>e. fst e = k) al = []"
  by (auto simp: filter_empty_conv map_of_eq_None_iff)

lemma instances_Object:
  "distinct (map fst (entries s)) \<Longrightarrow> map_of (entries s) t = Some (Object a) \<Longrightarrow>
   instances t k s = (if k = KNoKey then [a] else [])"
  by (simp add: instances_def filter_key_distinct)

lemma instances_Dict:
  "distinct (map fst (entries s)) \<Longrightarrow> map_of (entries s) t = Some (Dict d) \<Longrightarrow>
   instances t k s = map snd (filter (\<lambda>x. fst x = k) d)"
  by (simp add: instances_def filter_key_distinct)

lemma instances_None:
  "map_of (entries s) t = None \<Longrightarrow> instances t k s = []"
  by (simp add: instances_def filter_key_absent)

lemma wf_distinct: "wf s \<Longrightarrow> distinct (map fst (entries s))"
  by (simp add: wf_def)

lemma wf_lookup:
  "wf s \<Longrightarrow> map_of (entries s) t = Some c \<Longrightarrow> container_ok (length (heap s)) c"
  by (auto simp: wf_def list_all_iff dest!: map_of_SomeD) 

lemma typed_lookup_Object:
  "typed pb s \<Longrightarrow> map_of (entries s) t = Some (Object a) \<Longrightarrow> key_kind pb t = Some NO_KEY"
  by (auto simp: typed_def list_all_iff dest!: map_of_SomeD)

lemma typed_lookup_Dict:
  "typed pb s \<Longrightarrow> map_of (entries s) t = Some (Dict d) \<Longrightarrow> key_kind pb t = Some NO_KEY \<Longrightarrow> d = []"
  by (auto simp: typed_def list_all_iff dest!: map_of_SomeD)


lemma set_update_subset: "set (AList.update k v al) \<subseteq> insert (k, v) (set al)"
  by (induction al) auto

lemma ESOType_of_proto: "get_proto_for_type pb t = Some proto \<Longrightarrow> ESOType t = Inr t"
  by (auto simp: get_proto_for_type_def ESOType_def split: sum.splits if_splits)

lemma key_NoKey_iff:
  "get_key_for_object pb proto c = KNoKey \<longleftrightarrow> get_so_key_fields pb proto = NO_KEY"
  by (simp add: get_key_for_object_def split: key_fields.splits)

lemma key_kind_proto:
  "get_proto_for_type pb t = Some proto \<Longrightarrow> key_kind pb t = Some (get_so_key_fields pb proto)"
  by (simp add: key_kind_def)

lemma parse_ok:
  assumes "get_proto_for_type pb t = Some proto" "get_so_key_fields pb proto \<noteq> Fields []"
    "FromString pb proto b = Some c"
  shows "parse_object_data pb t b s =
     (Inr (Some (get_key_for_object pb proto c, length (heap s))), s\<lparr>heap := heap s @ [c]\<rparr>)"
  using assms by (simp add: parse_object_data_def)

lemma getitem_present:
  "ESOType t = Inr t \<Longrightarrow> map_of (entries s) t = Some v \<Longrightarrow> getitem t s = (Inr v, s)"
  by (simp add: getitem_def)

lemma getitem_absent:
  "ESOType t = Inr t \<Longrightarrow> map_of (entries s) t = None \<Longrightarrow>
   getitem t s = (Inr (Dict []), s\<lparr>entries := entries s @ [(t, Dict [])]\<rparr>)"
  by (simp add: getitem_def update_absent)

lemma update_last_entry:
  "map_of al k = None \<Longrightarrow> AList.update k v (al @ [(k, w)]) = al @ [(k, v)]"
  by (induction al) (auto split: if_splits)

text \<open>\<open>_update_object\<close> on an object that parses, case by case.\<close>

lemma update_object_nokey_absent:
  assumes "get_proto_for_type pb t = Some proto" "get_so_key_fields pb proto = NO_KEY"
    "FromString pb proto b = Some c" "map_of (entries s) t = None"
  shows "update_object pb t b s =
     (Inr (Some (t, length (heap s))),
      s\<lparr>heap := heap s @ [c], entries := entries s @ [(t, Object (length (heap s)))]\<rparr>)"
  using assms ESOType_of_proto [OF assms(1)]
  by (simp add: update_object_def parse_ok key_NoKey_iff getitem_absent update_last_entry)

lemma update_object_nokey_dict:
  assumes "get_proto_for_type pb t = Some proto" "get_so_key_fields pb proto = NO_KEY"
    "FromString pb proto b = Some c" "map_of (entries s) t = Some (Dict d)"
  shows "update_object pb t b s =
     (Inr (Some (t, length (heap s))),
      s\<lparr>heap := heap s @ [c], entries := AList.update t (Object (length (heap s))) (entries s)\<rparr>)"
  using assms ESOType_of_proto [OF assms(1)]
  by (simp add: update_object_def parse_ok key_NoKey_iff getitem_present)

lemma update_object_nokey_object:
  assumes "get_proto_for_type pb t = Some proto" "get_so_key_fields pb proto = NO_KEY"
    "FromString pb proto b = Some c" "map_of (entries s) t = Some (Object a)"
  shows "update_object pb t b s =
     (Inr (Some (t, a)), s\<lparr>heap := (heap s @ [c])[a := c]\<rparr>)"
  using assms ESOType_of_proto [OF assms(1)]
  by (simp add: update_object_def parse_ok key_NoKey_iff getitem_present CopyFrom_def)

lemma update_object_keyed_absent:
  assumes "get_proto_for_type pb t = Some proto" "get_so_key_fields pb proto = Fields ks" "ks \<noteq> []"
    "FromString pb proto b = Some c" "map_of (entries s) t = None"
  shows "update_object pb t b s =
     (Inr (Some (t, length (heap s))),
      s\<lparr>heap := heap s @ [c],
        entries := entries s @ [(t, Dict [(get_key_for_object pb proto c, length (heap s))])]\<rparr>)"
  using assms ESOType_of_proto [OF assms(1)]
  by (simp add: update_object_def parse_ok key_NoKey_iff getitem_absent update_last_entry)

lemma update_object_keyed_new:
  assumes "get_proto_for_type pb t = Some proto" "get_so_key_fields pb proto = Fields ks" "ks \<noteq> []"
    "FromString pb proto b = Some c" "map_of (entries s) t = Some (Dict d)"
    "map_of d (get_key_for_object pb proto c) = None"
  shows "update_object pb t b s =
     (Inr (Some (t, length (heap s))),
      s\<lparr>heap := heap s @ [c],
        entries := AList.update t (Dict (d @ [(get_key_for_object pb proto c, length (heap s))]))
                     (entries s)\<rparr>)"
  using assms ESOType_of_proto [OF assms(1)]
  by (simp add: update_object_def parse_ok key_NoKey_iff getitem_present update_absent)

lemma update_object_keyed_old:
  assumes "get_proto_for_type pb t = Some proto" "get_so_key_fields pb proto = Fields ks" "ks \<noteq> []"
    "FromString pb proto b = Some c" "map_of (entries s) t = Some (Dict d)"
    "map_of d (get_key_for_object pb proto c) = Some a"
  shows "update_object pb t b s =
     (Inr (Some (t, a)), s\<lparr>heap := (heap s @ [c])[a := c]\<rparr>)"
  using assms ESOType_of_proto [OF assms(1)]
  by (simp add: update_object_def parse_ok key_NoKey_iff getitem_present CopyFrom_def)


lemma wf_alt:
  "wf s \<longleftrightarrow> distinct (map fst (entries s))
              \<and> (\<forall>e \<in> set (entries s). container_ok (length (heap s)) (snd e))"
  by (auto simp: wf_def list_all_iff)

lemma typed_alt:
  "typed pb s \<longleftrightarrow>
     (\<forall>e \<in> set (entries s). container_typed pb (fst e) (snd e))"
  by (simp add: typed_def list_all_iff)

lemma container_ok_mono: "container_ok n c \<Longrightarrow> n \<le> m \<Longrightarrow> container_ok m c"
  by (cases c) (auto simp: list_all_iff)

lemma in_update_cases:
  "e \<in> set (AList.update k v al) \<Longrightarrow> e = (k, v) \<or> e \<in> set al"
  using set_update_subset [of k v al] by auto

lemma map_of_None_notin: "map_of al k = None \<Longrightarrow> k \<notin> fst ` set al"
  by (simp add: map_of_eq_None_iff)

lemma wf_append_entry:
  assumes "wf s" "map_of (entries s) t = None" "container_ok (length h) c"
    "length (heap s) \<le> length h"
  shows "wf (s\<lparr>heap := h, entries := entries s @ [(t, c)]\<rparr>)"
  using assms by (auto simp: wf_alt map_of_eq_None_iff intro: container_ok_mono)

lemma wf_update_entry:
  assumes "wf s" "container_ok (length h) c" "length (heap s) \<le> length h"
  shows "wf (s\<lparr>heap := h, entries := AList.update t c (entries s)\<rparr>)"
  using assms by (auto simp: wf_alt distinct_update dest!: in_update_cases intro: container_ok_mono)

lemma wf_heap:
  assumes "wf s" "length (heap s) \<le> length h"
  shows "wf (s\<lparr>heap := h\<rparr>)"
  using assms by (auto simp: wf_alt intro: container_ok_mono)

lemma typed_append_entry:
  assumes "typed pb s"
    "container_typed pb t c"
  shows "typed pb (s\<lparr>heap := h, entries := entries s @ [(t, c)]\<rparr>)"
  using assms by (auto simp: typed_alt)

lemma typed_update_entry:
  assumes "typed pb s"
    "container_typed pb t c"
  shows "typed pb (s\<lparr>heap := h, entries := AList.update t c (entries s)\<rparr>)"
  using assms by (auto simp: typed_alt dest!: in_update_cases)

lemma typed_heap: "typed pb (s\<lparr>heap := h\<rparr>) = typed pb s"
  by (simp add: typed_def)


lemma map_of_append_entry:
  "map_of al t = None \<Longrightarrow> map_of (al @ [(t, c)]) t = Some c"
  by (simp add: map_add_def)

lemma distinct_append_entry:
  "distinct (map fst al) \<Longrightarrow> map_of al t = None \<Longrightarrow> distinct (map fst (al @ [(t, c)]))"
  by (simp add: map_of_eq_None_iff)

lemma instances_after_append:
  assumes "distinct (map fst (entries s))" "map_of (entries s) t = None"
  shows "instances t k (s\<lparr>heap := h, entries := entries s @ [(t, c)]\<rparr>) =
         (case c of Object a \<Rightarrow> (if k = KNoKey then [a] else [])
                  | Dict d \<Rightarrow> map snd (filter (\<lambda>x. fst x = k) d))"
  using assms by (simp add: instances_def filter_key_absent)

lemma instances_after_update:
  assumes "distinct (map fst (entries s))"
  shows "instances t k (s\<lparr>heap := h, entries := AList.update t c (entries s)\<rparr>) =
         (case c of Object a \<Rightarrow> (if k = KNoKey then [a] else [])
                  | Dict d \<Rightarrow> map snd (filter (\<lambda>x. fst x = k) d))"
proof -
  have "filter (\<lambda>e. fst e = t) (AList.update t c (entries s)) = [(t, c)]"
    by (rule filter_key_distinct) (simp_all add: distinct_update assms update_conv')
  then show ?thesis
    by (simp add: instances_def)
qed

lemma instances_heap: "instances t k (s\<lparr>heap := h\<rparr>) = instances t k s"
  by (simp add: instances_def)

lemma update_object_ok:
  assumes P: "get_proto_for_type pb t = Some proto" "get_so_key_fields pb proto \<noteq> Fields []"
      "FromString pb proto b = Some c"
    and W: "wf s" "typed pb s"
  shows "\<exists>a s'. update_object pb t b s = (Inr (Some (t, a)), s')
      \<and> wf s' \<and> typed pb s'
      \<and> instances t (get_key_for_object pb proto c) s' = [a]
      \<and> a < length (heap s') \<and> heap s' ! a = c
      \<and> emitted s' = emitted s \<and> caches s' = caches s
      \<and> length (heap s') = Suc (length (heap s))
      \<and> a = (case instances t (get_key_for_object pb proto c) s of
                [] \<Rightarrow> length (heap s) | a0 # _ \<Rightarrow> a0)
      \<and> (\<forall>r<length (heap s). r \<noteq> a \<longrightarrow> heap s' ! r = heap s ! r)"
proof -
  let ?k = "get_key_for_object pb proto c"
  let ?n = "length (heap s)"
  note D = wf_distinct [OF W(1)]
  note KK = key_kind_proto [OF P(1)]
  show ?thesis
  proof (cases "get_so_key_fields pb proto")
    case NO_KEY
    then have k: "?k = KNoKey" by (simp add: key_NoKey_iff)
    show ?thesis
    proof (cases "map_of (entries s) t")
      case None
      show ?thesis
        unfolding update_object_nokey_absent [OF P(1) NO_KEY P(3) None] k
        using W None D KK NO_KEY
        by (simp add: wf_append_entry typed_append_entry instances_after_append instances_None
            nth_append)
    next
      case (Some cont)
      show ?thesis
      proof (cases cont)
        case (Dict d)
        with Some have S: "map_of (entries s) t = Some (Dict d)" by simp
        from typed_lookup_Dict [OF W(2) S] KK NO_KEY have "d = []" by simp
        then show ?thesis
          unfolding update_object_nokey_dict [OF P(1) NO_KEY P(3) S] k
          using W D KK NO_KEY S
          by (simp add: wf_update_entry typed_update_entry instances_after_update instances_Dict
              nth_append)
      next
        case (Object a)
        with Some have S: "map_of (entries s) t = Some (Object a)" by simp
        from wf_lookup [OF W(1) S] have a: "a < ?n" by simp
        show ?thesis
          unfolding update_object_nokey_object [OF P(1) NO_KEY P(3) S] k
          using W D S a
          by (simp add: wf_heap typed_heap instances_heap instances_Object nth_append)
      qed
    qed
  next
    case (Fields ks)
    with P(2) have ks: "ks \<noteq> []" by simp
    from Fields have k: "?k \<noteq> KNoKey" by (simp add: key_NoKey_iff)
    from KK Fields have KK': "key_kind pb t \<noteq> Some NO_KEY" by simp
    show ?thesis
    proof (cases "map_of (entries s) t")
      case None
      show ?thesis
        unfolding update_object_keyed_absent [OF P(1) Fields ks P(3) None]
        using W None D KK'
        by (simp add: wf_append_entry typed_append_entry instances_after_append instances_None
            nth_append)
    next
      case (Some cont)
      show ?thesis
      proof (cases cont)
        case (Object a)
        with Some have S: "map_of (entries s) t = Some (Object a)" by simp
        from typed_lookup_Object [OF W(2) S] KK' show ?thesis by simp
      next
        case (Dict d)
        with Some have S: "map_of (entries s) t = Some (Dict d)" by simp
        from wf_lookup [OF W(1) S] have d: "list_all (\<lambda>r. r < ?n) (map snd d)" "distinct (map fst d)"
          by simp_all
        show ?thesis
        proof (cases "map_of d ?k")
          case None
          have ok: "container_ok (Suc ?n) (Dict (d @ [(?k, ?n)]))"
            using d None by (auto simp: list_all_iff map_of_eq_None_iff intro: less_SucI)
          show ?thesis
            unfolding update_object_keyed_new [OF P(1) Fields ks P(3) S None]
            using W D KK' S ok None
            by (simp add: wf_update_entry typed_update_entry instances_after_update instances_Dict
                nth_append filter_key_absent)
        next
          case (Some a)
          from d(1) map_of_SomeD [OF Some] have a: "a < ?n"
            by (auto simp: list_all_iff)
          show ?thesis
            unfolding update_object_keyed_old [OF P(1) Fields ks P(3) S Some]
            using W D S a Some d(2)
            by (simp add: wf_heap typed_heap instances_heap instances_Dict nth_append
                filter_key_distinct)
        qed
      qed
    qed
  qed
qed


lemma handle_create_alt:
  "handle_create pb m s =
     (case update_object pb (type_id m) (object_data m) s of
        (Inl e, s1) \<Rightarrow> (Some e, s1)
      | (Inr None, s1) \<Rightarrow> (None, s1)
      | (Inr (Some (t, obj)), s1) \<Rightarrow> (None, s1\<lparr>emitted := emitted s1 @ [((New, t), obj)]\<rparr>))"
  by (simp add: handle_create_def emit_def split: prod.splits sum.splits option.splits)

lemma handle_update_alt:
  "handle_update pb m s =
     (case update_object pb (type_id m) (object_data m) s of
        (Inl e, s1) \<Rightarrow> (Some e, s1)
      | (Inr None, s1) \<Rightarrow> (None, s1)
      | (Inr (Some (t, obj)), s1) \<Rightarrow> (None, s1\<lparr>emitted := emitted s1 @ [((Updated, t), obj)]\<rparr>))"
  by (simp add: handle_update_def emit_def split: prod.splits sum.splits option.splits)

lemma wf_emitted: "wf (s\<lparr>emitted := x\<rparr>) = wf s"
  by (simp add: wf_def)

lemma typed_emitted: "typed pb (s\<lparr>emitted := x\<rparr>) = typed pb s"
  by (simp add: typed_def)

lemma instances_emitted: "instances t k (s\<lparr>emitted := x\<rparr>) = instances t k s"
  by (simp add: instances_def)

section \<open>Evaluating the instance of the protobuf modules\<close>

lemma example_proto_1: "get_proto_for_type example_protobufs 1 = Some ''CSOEconItem''"
  by code_simp

lemma example_proto_7: "get_proto_for_type example_protobufs 7 = Some ''CSOEconGameAccountClient''"
  by code_simp

lemma example_fields_1: "get_so_key_fields example_protobufs ''CSOEconItem'' = Fields [''id'']"
  by code_simp

lemma example_fields_7: "get_so_key_fields example_protobufs ''CSOEconGameAccountClient'' = NO_KEY"
  by code_simp

lemma example_FromString:
  "FromString example_protobufs p data = (if 255 \<in> set data then None else Some data)"
  by (simp add: example_protobufs_def)

lemma wf_init: "wf SOCache_init"
  by (simp add: wf_def SOCache_init_def)

lemma typed_init: "typed pb SOCache_init"
  by (simp add: typed_def SOCache_init_def)

section \<open>Create and Update\<close>

text \<open>
  C1. Let the type \<open>t\<close> have a class whose key fields are not the empty list (a key, or no
  key at all), let the bytes of a Create and of an Update both decode, to contents with
  the same key \<open>k\<close>, and let the cache be well formed. Then neither handler raises, the
  two events emitted are \<open>(new, t)\<close> and \<open>(updated, t)\<close> with the same instance \<open>a\<close> (the one
  stored for \<open>(t, k)\<close> before the Create if there was one, else the object the Create
  decoded), afterwards \<open>a\<close> is the only instance stored for \<open>(t, k)\<close>, and its content is the
  content of the Update.
\<close>

theorem create_then_update:
  assumes P: "get_proto_for_type pb t = Some proto" "get_so_key_fields pb proto \<noteq> Fields []"
    and F: "FromString pb proto b1 = Some c1" "FromString pb proto b2 = Some c2"
    and K: "get_key_for_object pb proto c1 = k" "get_key_for_object pb proto c2 = k"
    and W: "wf s" "typed pb s"
  shows "let r1 = handle_create pb \<lparr>type_id = t, object_data = b1\<rparr> s;
             r2 = handle_update pb \<lparr>type_id = t, object_data = b2\<rparr> (snd r1);
             a = (case instances t k s of [] \<Rightarrow> length (heap s) | a0 # _ \<Rightarrow> a0)
         in fst r1 = None \<and> fst r2 = None
            \<and> emitted (snd r2) = emitted s @ [((New, t), a), ((Updated, t), a)]
            \<and> instances t k (snd r2) = [a]
            \<and> a < length (heap (snd r2)) \<and> heap (snd r2) ! a = c2"
proof -
  define a where "a = (case instances t k s of [] \<Rightarrow> length (heap s) | a0 # _ \<Rightarrow> a0)"
  from update_object_ok [OF P F(1) W] K(1)
  obtain s1 where 1: "update_object pb t b1 s = (Inr (Some (t, a)), s1)"
    "wf s1" "typed pb s1" "instances t k s1 = [a]" "emitted s1 = emitted s"
    unfolding a_def by auto
  define s1' where "s1' = s1\<lparr>emitted := emitted s1 @ [((New, t), a)]\<rparr>"
  have c: "handle_create pb \<lparr>type_id = t, object_data = b1\<rparr> s = (None, s1')"
    by (simp add: handle_create_alt 1 s1'_def)
  have W1: "wf s1'" "typed pb s1'" and I1: "instances t k s1' = [a]"
    and E1: "emitted s1' = emitted s @ [((New, t), a)]"
    using 1 by (simp_all add: s1'_def wf_emitted typed_emitted instances_emitted)
  from update_object_ok [OF P F(2) W1] K(2) I1
  obtain s2 where 2: "update_object pb t b2 s1' = (Inr (Some (t, a)), s2)"
    "instances t k s2 = [a]" "a < length (heap s2)" "heap s2 ! a = c2" "emitted s2 = emitted s1'"
    by auto
  have u: "handle_update pb \<lparr>type_id = t, object_data = b2\<rparr> s1' =
             (None, s2\<lparr>emitted := emitted s2 @ [((Updated, t), a)]\<rparr>)"
    by (simp add: handle_update_alt 2)
  show ?thesis
    unfolding Let_def c snd_conv u a_def [symmetric]
    using 2 E1 by (simp add: instances_emitted)
qed

text \<open>
  On a new cache: Create and Update of item 10 (type 1, keyed by \<open>id\<close>) and of the account
  object (type 7, no key) each leave one stored instance, the one emitted twice, holding
  the Update's content.
\<close>

theorem create_then_update_witness:
  "(let r1 = handle_create example_protobufs \<lparr>type_id = 1, object_data = [10, 1]\<rparr> SOCache_init;
        r2 = handle_update example_protobufs \<lparr>type_id = 1, object_data = [10, 2]\<rparr> (snd r1)
    in emitted (snd r2) = [((New, 1), 0), ((Updated, 1), 0)]
       \<and> instances 1 (KVal 10) (snd r2) = [0] \<and> heap (snd r2) ! 0 = [10, 2])
   \<and> (let r1 = handle_create example_protobufs \<lparr>type_id = 7, object_data = [5]\<rparr> SOCache_init;
           r2 = handle_update example_protobufs \<lparr>type_id = 7, object_data = [6]\<rparr> (snd r1)
       in emitted (snd r2) = [((New, 7), 0), ((Updated, 7), 0)]
          \<and> instances 7 KNoKey (snd r2) = [0] \<and> heap (snd r2) ! 0 = [6])"
proof -
  have k1: "get_key_for_object example_protobufs ''CSOEconItem'' [10, 1] = KVal 10"
           "get_key_for_object example_protobufs ''CSOEconItem'' [10, 2] = KVal 10"
    by code_simp+
  have k7: "get_key_for_object example_protobufs ''CSOEconGameAccountClient'' [5] = KNoKey"
           "get_key_for_object example_protobufs ''CSOEconGameAccountClient'' [6] = KNoKey"
    by code_simp+
  have e: "emitted (SOCache_init :: (nat list, nat) socache) = []"
    "heap (SOCache_init :: (nat list, nat) socache) = []"
    "instances t k (SOCache_init :: (nat list, nat) socache) = []" for t k
    by (simp_all add: SOCache_init_def instances_def)
  have A: "let r1 = handle_create example_protobufs \<lparr>type_id = 1, object_data = [10, 1]\<rparr> SOCache_init;
        r2 = handle_update example_protobufs \<lparr>type_id = 1, object_data = [10, 2]\<rparr> (snd r1)
    in emitted (snd r2) = [((New, 1), 0), ((Updated, 1), 0)]
       \<and> instances 1 (KVal 10) (snd r2) = [0] \<and> heap (snd r2) ! 0 = [10, 2]"
    using create_then_update [OF example_proto_1 _ _ _ k1 wf_init typed_init,
        of "[10, 1]" "[10, 2]"]
    by (auto simp: example_fields_1 example_FromString Let_def e)
  have B: "let r1 = handle_create example_protobufs \<lparr>type_id = 7, object_data = [5]\<rparr> SOCache_init;
           r2 = handle_update example_protobufs \<lparr>type_id = 7, object_data = [6]\<rparr> (snd r1)
       in emitted (snd r2) = [((New, 7), 0), ((Updated, 7), 0)]
          \<and> instances 7 KNoKey (snd r2) = [0] \<and> heap (snd r2) ! 0 = [6]"
    using create_then_update [OF example_proto_7 _ _ _ k7 wf_init typed_init,
        of "[5]" "[6]"]
    by (auto simp: example_fields_7 example_FromString Let_def e)
  from A B show ?thesis by simp
qed

section \<open>Destroy\<close>

lemma filter_delete: "filter (\<lambda>e. fst e = k) (AList.delete k al) = []"
  by (auto simp: AList.delete_eq filter_empty_conv)

lemma instances_after_delete:
  "instances t k (s\<lparr>heap := h, entries := AList.delete t (entries s)\<rparr>) = []"
  by (simp add: instances_def filter_delete)


lemma instances_entries_cong:
  "entries s' = entries s \<Longrightarrow> instances t k s' = instances t k s"
  by (simp add: instances_def)






lemma example_cache_typed: "typed example_protobufs (socache example_ready_client)"
  by code_simp












section \<open>Cache-unsubscribed\<close>

text \<open>
  C2 fails on the code for a contained type without key. A new cache receives a
  Cache-subscribed notification of owner (1, 42) with one object of type 7, then the
  Cache-unsubscribed notification of that owner: the handler emits \<open>(removed, 7)\<close> while
  popping the object, and the \<open>del\<close> of the same type that follows raises KeyError. The
  Subscription Record is still there. This run has one contained type, so it does not
  depend on the order in which the types are visited. With the example cache, whose
  record lists the types 7 and 1, and the types visited in this order, the same exception
  leaves the two objects of type 1 in the cache: the remaining types are never visited.
  (Visited in the order 1, 7, the objects of type 1 are removed first and the same
  KeyError is raised at type 7.)
\<close>

theorem unsubscribed_singleton_raises:
  "handle_cache_unsubscribed \<lparr>unsub_owner_type = 1, unsub_owner_id = 42\<rparr>
     (snd (handle_cache_subscribed example_protobufs
        \<lparr>owner_type = 1, owner_id = 42, sub_version = 3,
         objects = [\<lparr>group_type_id = 7, group_object_data = [[5, 6]]\<rparr>]\<rparr>
        (SOCache_init :: (nat list, nat) socache)))
   = (Some KeyError,
      \<lparr>entries = [], caches = [((1, 42), \<lparr>version = 3, type_ids = [7]\<rparr>)],
       heap = [[5, 6]], emitted = [((New, 7), 0), ((Removed, 7), 0)]\<rparr>)
   \<and> handle_cache_unsubscribed \<lparr>unsub_owner_type = 1, unsub_owner_id = 42\<rparr>
         (socache example_ready_client)
   = (Some KeyError,
      \<lparr>entries = [(1, Dict [(KVal 10, 1), (KVal 11, 2)])],
       caches = [((1, 42), \<lparr>version = 3, type_ids = [7, 1]\<rparr>)],
       heap = [[5, 6], [10, 1], [11, 2]],
       emitted = [((New, 7), 0), ((New, 1), 1), ((New, 1), 2), ((Removed, 7), 0)]\<rparr>)"
  by code_simp

text \<open>The example cache with the two types visited in the other order.\<close>

lemma unsubscribed_types_other_order:
  "unsubscribed_types [1, 7] (socache example_ready_client)
   = (Some KeyError,
      \<lparr>entries = [], caches = [((1, 42), \<lparr>version = 3, type_ids = [7, 1]\<rparr>)],
       heap = [[5, 6], [10, 1], [11, 2]],
       emitted = [((New, 7), 0), ((New, 1), 1), ((New, 1), 2),
                  ((Removed, 1), 1), ((Removed, 1), 2), ((Removed, 7), 0)]\<rparr>)"
  by code_simp

section \<open>Cache-subscribed\<close>

text \<open>
  C3, as stated, fails. Type 5 has a class without key fields, so its object fails to
  parse with the logged failure; the notification carries that group first and a group
  of type 1 after it. The object of the later group is stored and emitted as \<open>(new, 1)\<close>
  all the same: the \<open>break\<close> leaves the loop over the objects of one group only.
\<close>

theorem subscribed_continues_counterexample:
  "fst (update_object example_protobufs 5 [1] (SOCache_init :: (nat list, nat) socache)) = Inr None
   \<and> handle_cache_subscribed example_protobufs
        \<lparr>owner_type = 1, owner_id = 42, sub_version = 3,
         objects = [\<lparr>group_type_id = 5, group_object_data = [[1]]\<rparr>,
                    \<lparr>group_type_id = 1, group_object_data = [[10, 1]]\<rparr>]\<rparr>
        (SOCache_init :: (nat list, nat) socache)
   = (None,
      \<lparr>entries = [(1, Dict [(KVal 10, 0)])],
       caches = [((1, 42), \<lparr>version = 3, type_ids = [5, 1]\<rparr>)],
       heap = [[10, 1]], emitted = [((New, 1), 0)]\<rparr>)"
  by code_simp

lemma subscribed_objects_append:
  "subscribed_objects pb (xs @ ys) s =
     (case subscribed_objects pb xs s of
        (Some e, s1) \<Rightarrow> (Some e, s1)
      | (None, s1) \<Rightarrow> subscribed_objects pb ys s1)"
  by (induction xs arbitrary: s) (auto split: prod.splits option.splits)

lemma parse_unresolved:
  "key_kind pb t = None \<or> key_kind pb t = Some (Fields []) \<Longrightarrow>
   parse_object_data pb t b s = (Inr None, s)"
  by (auto simp: key_kind_def parse_object_data_def split: option.splits)

lemma update_object_unresolved:
  "key_kind pb t = None \<or> key_kind pb t = Some (Fields []) \<Longrightarrow>
   update_object pb t b s = (Inr None, s)"
  by (simp add: update_object_def parse_unresolved)

lemma subscribed_object_data_unresolved:
  "key_kind pb t = None \<or> key_kind pb t = Some (Fields []) \<Longrightarrow>
   subscribed_object_data pb t bs s = (None, s)"
  by (cases bs) (simp_all add: update_object_unresolved)

lemma update_object_undecodable:
  assumes "get_proto_for_type pb t = Some proto" "get_so_key_fields pb proto \<noteq> Fields []"
    "FromString pb proto b = None"
  shows "update_object pb t b s = (Inl DecodeError, s)"
  using assms by (simp add: update_object_def parse_object_data_def)

lemma update_object_resolved:
  assumes "get_proto_for_type pb t = Some proto" "get_so_key_fields pb proto \<noteq> Fields []"
  shows "fst (update_object pb t b s) \<noteq> Inr None"
  using assms ESOType_of_proto [OF assms(1)]
  by (auto simp: update_object_def parse_object_data_def getitem_def
      split: option.splits container.splits)

lemma subscribed_object_data_undecodable:
  assumes "get_proto_for_type pb t = Some proto" "get_so_key_fields pb proto \<noteq> Fields []"
    "FromString pb proto b = None"
  shows "subscribed_object_data pb t (pre @ b # post) s =
     (case subscribed_object_data pb t pre s of
        (Some e, s1) \<Rightarrow> (Some e, s1)
      | (None, s1) \<Rightarrow> (Some DecodeError, s1))"
proof (induction pre arbitrary: s)
  case Nil
  show ?case
    by (simp add: update_object_undecodable [OF assms])
next
  case (Cons x pre)
  obtain r s1 where u: "update_object pb t x s = (r, s1)"
    by (cases "update_object pb t x s")
  with update_object_resolved [OF assms(1,2), of x s] have "r \<noteq> Inr None"
    by simp
  with u Cons.IH show ?case
    by (cases r) (auto split: option.splits)
qed

text \<open>
  C3, amended. The loops over a notification's groups behave as follows. If the type of a
  group cannot be resolved (no class for the type id, or a class without key fields),
  the objects of that group are skipped without any effect, and the groups after it are
  processed as if the group were not there. If the bytes of an object do not decode
  (for a type that resolves), the DecodeError propagates: the result is the one of the
  objects before it alone, so no object after it, in its group or in a later one, is
  applied or emitted, and what was applied before it stays.
\<close>

theorem subscribed_failure:
  "(key_kind pb t = None \<or> key_kind pb t = Some (Fields []) \<longrightarrow>
      subscribed_objects pb (gs1 @ \<lparr>group_type_id = t, group_object_data = bs\<rparr> # gs2) s =
      subscribed_objects pb (gs1 @ gs2) s)
   \<and> (get_proto_for_type pb t = Some proto \<and> get_so_key_fields pb proto \<noteq> Fields []
        \<and> FromString pb proto b = None \<longrightarrow>
      subscribed_objects pb
        (gs1 @ \<lparr>group_type_id = t, group_object_data = pre @ b # post\<rparr> # gs2) s =
      (case subscribed_objects pb (gs1 @ [\<lparr>group_type_id = t, group_object_data = pre\<rparr>]) s of
         (Some e, s1) \<Rightarrow> (Some e, s1)
       | (None, s1) \<Rightarrow> (Some DecodeError, s1)))"
  by (auto simp: subscribed_objects_append subscribed_object_data_unresolved
      subscribed_object_data_undecodable split: prod.splits option.splits)

text \<open>
  On a new cache: after the unresolvable group of type 5 the group of type 1 is applied;
  the undecodable bytes \<open>[255]\<close> stop the notification with DecodeError after item 10,
  before item 11 and before the group of type 7.
\<close>

theorem subscribed_failure_witness:
  "subscribed_objects example_protobufs
     [\<lparr>group_type_id = 5, group_object_data = [[1]]\<rparr>,
      \<lparr>group_type_id = 1, group_object_data = [[10, 1]]\<rparr>]
     (SOCache_init :: (nat list, nat) socache)
   = (None, \<lparr>entries = [(1, Dict [(KVal 10, 0)])], caches = [], heap = [[10, 1]],
              emitted = [((New, 1), 0)]\<rparr>)
   \<and> subscribed_objects example_protobufs
       [\<lparr>group_type_id = 1, group_object_data = [[10, 1], [255], [11, 2]]\<rparr>,
        \<lparr>group_type_id = 7, group_object_data = [[5]]\<rparr>]
       (SOCache_init :: (nat list, nat) socache)
   = (Some DecodeError, \<lparr>entries = [(1, Dict [(KVal 10, 0)])], caches = [], heap = [[10, 1]],
                          emitted = [((New, 1), 0)]\<rparr>)"
proof -
  have k5: "key_kind example_protobufs 5 = Some (Fields [])"
    by code_simp
  have f: "get_so_key_fields example_protobufs ''CSOEconItem'' \<noteq> Fields []"
    by (simp add: example_fields_1)
  have d: "FromString example_protobufs ''CSOEconItem'' [255] = None"
    by (simp add: example_FromString)
  have e: "subscribed_objects example_protobufs
             [\<lparr>group_type_id = 1, group_object_data = [[10, 1]]\<rparr>]
             (SOCache_init :: (nat list, nat) socache)
           = (None, \<lparr>entries = [(1, Dict [(KVal 10, 0)])], caches = [], heap = [[10, 1]],
                      emitted = [((New, 1), 0)]\<rparr>)"
    by code_simp
  have A: "subscribed_objects example_protobufs
             ([] @ \<lparr>group_type_id = 5, group_object_data = [[1]]\<rparr>
                # [\<lparr>group_type_id = 1, group_object_data = [[10, 1]]\<rparr>])
             (SOCache_init :: (nat list, nat) socache)
           = subscribed_objects example_protobufs
               ([] @ [\<lparr>group_type_id = 1, group_object_data = [[10, 1]]\<rparr>]) SOCache_init"
    using subscribed_failure [where pb = example_protobufs and t = 5 and ?gs1.0 = "[]"
        and bs = "[[1]]" and ?gs2.0 = "[\<lparr>group_type_id = 1, group_object_data = [[10, 1]]\<rparr>]"
        and s = "SOCache_init :: (nat list, nat) socache"] k5
    by blast
  have B: "subscribed_objects example_protobufs
             ([] @ \<lparr>group_type_id = 1, group_object_data = [[10, 1]] @ [255] # [[11, 2]]\<rparr>
                # [\<lparr>group_type_id = 7, group_object_data = [[5]]\<rparr>])
             (SOCache_init :: (nat list, nat) socache)
           = (case subscribed_objects example_protobufs
                     ([] @ [\<lparr>group_type_id = 1, group_object_data = [[10, 1]]\<rparr>]) SOCache_init of
                (Some e, s1) \<Rightarrow> (Some e, s1)
              | (None, s1) \<Rightarrow> (Some DecodeError, s1))"
    using subscribed_failure [where pb = example_protobufs and t = 1 and ?gs1.0 = "[]"
        and ?gs2.0 = "[\<lparr>group_type_id = 7, group_object_data = [[5]]\<rparr>]"
        and s = "SOCache_init :: (nat list, nat) socache" and proto = "''CSOEconItem''"
        and b = "[255]" and pre = "[[10, 1]]" and post = "[[11, 2]]"] example_proto_1 f d
    by blast
  show ?thesis
    using A B unfolding append.simps e
    by (simp only: prod.case option.case simp_thms)
qed

section \<open>Share codes\<close>

lemma length_le_digits: "length (le_digits B k x) = k"
  by (induction k arbitrary: x) simp_all

lemma le_digits_ok: "0 < B \<Longrightarrow> digits_ok B (le_digits B k x)"
  by (induction k arbitrary: x) (simp_all add: digits_ok_def)

lemma le_value_le_digits: "0 < B \<Longrightarrow> le_value B (le_digits B k x) = x mod B ^ k"
proof (induction k arbitrary: x)
  case 0
  then show ?case by simp
next
  case (Suc k)
  have "x mod (B * B ^ k) = B * (x div B mod B ^ k) + x mod B"
    using Suc.prems by (simp add: zmod_zmult2_eq)
  with Suc show ?case by simp
qed

lemma le_digits_le_value:
  "0 < B \<Longrightarrow> digits_ok B ds \<Longrightarrow> le_digits B (length ds) (le_value B ds) = ds"
  by (induction ds) (simp_all add: digits_ok_def)

lemma le_value_bounds:
  "0 < B \<Longrightarrow> digits_ok B ds \<Longrightarrow> 0 \<le> le_value B ds \<and> le_value B ds < B ^ length ds"
proof (induction ds)
  case Nil
  then show ?case by simp
next
  case (Cons d ds)
  then have d: "0 \<le> d" "d < B" and v: "0 \<le> le_value B ds" "le_value B ds + 1 \<le> B ^ length ds"
    by (simp_all add: digits_ok_def)
  from v(2) Cons.prems(1) have "B * (le_value B ds + 1) \<le> B * B ^ length ds"
    by (simp only: mult_le_cancel_left_pos)
  with d v(1) Cons.prems(1) show ?case
    by (simp add: algebra_simps)
qed

lemma le_value_append:
  "le_value B (xs @ ys) = le_value B xs + B ^ length xs * le_value B ys"
  by (induction xs) (simp_all add: algebra_simps)

lemma digits_ok_rev: "digits_ok B (rev ds) = digits_ok B ds"
  by (simp add: digits_ok_def list_all_iff)

lemma foldl_le_value:
  "foldl (\<lambda>r d. B * r + d) a ds = le_value B (rev ds) + B ^ length ds * a"
  by (induction ds arbitrary: a) (simp_all add: le_value_append algebra_simps)

lemma le_digits_map:
  "0 < B \<Longrightarrow> le_digits B k x = map (\<lambda>i. x div B ^ i mod B) [0..<k]"
proof (induction k arbitrary: x)
  case 0
  then show ?case by simp
next
  case (Suc k)
  have "[0..<Suc k] = 0 # map Suc [0..<k]"
    by (simp add: upt_conv_Cons map_Suc_upt del: upt_Suc)
  moreover have "x div B div B ^ i = x div (B * B ^ i)" for i
    using Suc.prems by (simp add: zdiv_zmult2_eq)
  ultimately show ?case
    using Suc by (simp add: comp_def del: upt_Suc)
qed

lemma swap_endianness_digits:
  "swap_endianness x = le_value 256 (rev (le_digits 256 18 x))"
proof -
  have "drop_bit (8 * i) x AND 255 = x div 256 ^ i mod 256" for i
  proof -
    have "(255 :: int) = mask 8" by (simp add: mask_eq_exp_minus_1)
    then have "drop_bit (8 * i) x AND 255 = take_bit 8 (drop_bit (8 * i) x)"
      by (simp only: take_bit_eq_mask)
    also have "\<dots> = x div 2 ^ (8 * i) mod 2 ^ 8"
      by (simp add: take_bit_eq_mod drop_bit_eq_div)
    also have "(2 :: int) ^ (8 * i) = 256 ^ i"
      by (simp add: power_mult)
    finally show ?thesis by simp
  qed
  then have "swap_endianness x = foldl (\<lambda>r d. 256 * r + d) 0 (le_digits 256 18 x)"
    unfolding swap_endianness_def le_digits_map [of 256 18 x, simplified]
    by (simp only: foldl_map push_bit_eq_mult) (simp add: mult.commute)
  then show ?thesis
    by (simp add: foldl_le_value)
qed

lemma swap_endianness_bounds: "0 \<le> swap_endianness x \<and> swap_endianness x < 2 ^ 144"
  using le_value_bounds [of 256 "rev (le_digits 256 18 x)"]
  by (simp add: swap_endianness_digits digits_ok_rev le_digits_ok length_le_digits)

lemma swap_endianness_involution:
  assumes "0 \<le> x" "x < 2 ^ 144"
  shows "swap_endianness (swap_endianness x) = x"
proof -
  let ?D = "le_digits 256 18 x"
  have "le_digits 256 18 (le_value 256 (rev ?D)) = rev ?D"
    using le_digits_le_value [of 256 "rev ?D"]
    by (simp add: digits_ok_rev le_digits_ok length_le_digits)
  then have "swap_endianness (swap_endianness x) = le_value 256 ?D"
    by (simp add: swap_endianness_digits)
  also have "\<dots> = x mod 256 ^ 18"
    by (simp add: le_value_le_digits)
  also have "\<dots> = x"
    using assms by simp
  finally show ?thesis .
qed

lemma DICTIONARY_LENGTH_eq: "DICTIONARY_LENGTH = 57"
  by (simp add: DICTIONARY_LENGTH_def dictionary_def)

lemma length_dictionary: "length dictionary = 57"
  by (simp add: dictionary_def)

lemma distinct_dictionary: "distinct dictionary"
  by (simp add: dictionary_def)

lemma hyphen_not_in_dictionary: "CHR ''-'' \<notin> set dictionary"
  by (simp add: dictionary_def)

lemma index_nth: "distinct xs \<Longrightarrow> i < length xs \<Longrightarrow> index xs (xs ! i) = Inr (int i)"
proof (induction xs arbitrary: i)
  case Nil
  then show ?case by simp
next
  case (Cons x xs)
  show ?case
  proof (cases i)
    case 0
    then show ?thesis by simp
  next
    case (Suc j)
    with Cons.prems have "xs ! j \<in> set xs" "x \<notin> set xs" by simp_all
    then have "x \<noteq> xs ! j" by auto
    with Suc Cons show ?thesis by simp
  qed
qed

lemma index_digit_char:
  "0 \<le> d \<Longrightarrow> d < 57 \<Longrightarrow> index dictionary (digit_char d) = Inr d"
  using index_nth [OF distinct_dictionary, of "nat d"]
  by (simp add: digit_char_def length_dictionary)

lemma digit_char_in_dictionary:
  "0 \<le> d \<Longrightarrow> d < 57 \<Longrightarrow> digit_char d \<in> set dictionary"
  by (simp add: digit_char_def length_dictionary)

lemma encode_loop_digits:
  "encode_loop k num code = code @ map digit_char (le_digits 57 k num)"
  by (induction k arbitrary: num code) (simp_all add: DICTIONARY_LENGTH_eq digit_char_def)

lemma decode_loop_append:
  "decode_loop (xs @ ys) num =
     (case decode_loop xs num of Inl e \<Rightarrow> Inl e | Inr n \<Rightarrow> decode_loop ys n)"
  by (induction xs arbitrary: num) (simp_all split: sum.splits)

lemma decode_loop_digits:
  "digits_ok 57 ds \<Longrightarrow>
   decode_loop (rev (map digit_char ds)) num = Inr (le_value 57 ds + 57 ^ length ds * num)"
proof (induction ds arbitrary: num)
  case Nil
  then show ?case by simp
next
  case (Cons d ds)
  then have d: "0 \<le> d" "d < 57" and ds: "digits_ok 57 ds"
    by (simp_all add: digits_ok_def)
  show ?case
    by (simp add: decode_loop_append Cons.IH [OF ds] index_digit_char [OF d]
        DICTIONARY_LENGTH_eq algebra_simps)
qed

lemma decode_loop_encode_loop:
  assumes "0 \<le> num" "num < 2 ^ 144"
  shows "decode_loop (rev (encode_loop 25 num [])) 0 = Inr num"
proof -
  have "(2 :: int) ^ 144 < 57 ^ 25" by simp
  with assms have "num mod 57 ^ 25 = num" by simp
  then show ?thesis
    by (simp add: encode_loop_digits decode_loop_digits le_digits_ok length_le_digits
        le_value_le_digits)
qed

lemma in_class_dictionary: "c \<in> set dictionary \<Longrightarrow> in_class c"
  by (simp add: in_class_def)

lemma length_5_conv: "length g = 5 \<longleftrightarrow> (\<exists>a b c d e. g = [a, b, c, d, e])"
  by (auto simp: numeral_eq_Suc length_Suc_conv)

lemma match_groups_group:
  assumes "length g = 5" "set g \<subseteq> set dictionary"
  shows "match_groups (Suc n) (CHR ''-'' # g @ rest) = match_groups n rest"
proof -
  from assms(1) obtain a b c d e where g: "g = [a, b, c, d, e]"
    by (auto simp: length_5_conv)
  with assms(2) show ?thesis
    by (simp add: in_class_dictionary)
qed

lemma groups_join:
  "take 5 code @ take 5 (drop 5 code) @ take 5 (drop 10 code) @ take 5 (drop 15 code) @
   drop 20 code = code"
proof -
  have "take 5 (drop 15 code) @ drop 20 code = drop 15 code"
    using append_take_drop_id [of 5 "drop 15 code"] by simp
  moreover have "take 5 (drop 10 code) @ drop 15 code = drop 10 code"
    using append_take_drop_id [of 5 "drop 10 code"] by simp
  moreover have "take 5 (drop 5 code) @ drop 10 code = drop 5 code"
    using append_take_drop_id [of 5 "drop 5 code"] by simp
  ultimately show ?thesis by simp
qed

lemma removeprefix_append: "removeprefix pre (pre @ rest) = rest"
  by (simp add: removeprefix_def)

lemma match_groups_5:
  assumes l: "length g1 = 5" "length g2 = 5" "length g3 = 5" "length g4 = 5" "length g5 = 5"
    and s: "set g1 \<subseteq> set dictionary" "set g2 \<subseteq> set dictionary" "set g3 \<subseteq> set dictionary"
      "set g4 \<subseteq> set dictionary" "set g5 \<subseteq> set dictionary"
  shows "match_groups 5 (CHR ''-'' # g1 @ CHR ''-'' # g2 @ CHR ''-'' # g3 @ CHR ''-'' # g4 @
           CHR ''-'' # g5 @ rest) = Some rest"
proof -
  have five: "5 = Suc (Suc (Suc (Suc (Suc 0))))" by simp
  show ?thesis
    unfolding five
    by (simp only: match_groups_group [OF l(1) s(1)] match_groups_group [OF l(2) s(2)]
        match_groups_group [OF l(3) s(3)] match_groups_group [OF l(4) s(4)]
        match_groups_group [OF l(5) s(5)] match_groups.simps(1))
qed

lemma filter_groups_5:
  assumes "set g1 \<subseteq> set dictionary" "set g2 \<subseteq> set dictionary" "set g3 \<subseteq> set dictionary"
      "set g4 \<subseteq> set dictionary" "set g5 \<subseteq> set dictionary"
  shows "filter (\<lambda>c. c \<noteq> CHR ''-'') (CHR ''-'' # g1 @ CHR ''-'' # g2 @ CHR ''-'' # g3 @
           CHR ''-'' # g4 @ CHR ''-'' # g5) = g1 @ g2 @ g3 @ g4 @ g5"
proof -
  from assms hyphen_not_in_dictionary
  have "\<forall>c \<in> set g1 \<union> set g2 \<union> set g3 \<union> set g4 \<union> set g5. c \<noteq> CHR ''-''"
    by auto
  then show ?thesis
    by (simp add: filter_id_conv)
qed

lemma formatted_match:
  assumes "length code = 25" "set code \<subseteq> set dictionary"
  shows "CODE_PATTERN_match (formatted code)"
    and "filter (\<lambda>c. c \<noteq> CHR ''-'') (removeprefix ''CSGO'' (formatted code)) = code"
proof -
  let ?groups = "CHR ''-'' # take 5 code @ CHR ''-'' # take 5 (drop 5 code) @
     CHR ''-'' # take 5 (drop 10 code) @ CHR ''-'' # take 5 (drop 15 code) @
     CHR ''-'' # drop 20 code"
  have s: "set (take 5 code) \<subseteq> set dictionary" "set (take 5 (drop n code)) \<subseteq> set dictionary"
    "set (drop n code) \<subseteq> set dictionary" for n
    using assms(2) set_take_subset [of 5 code] set_take_subset [of 5 "drop n code"]
      set_drop_subset [of n code]
    by blast+
  have l: "length (take 5 code) = 5" "length (take 5 (drop 5 code)) = 5"
    "length (take 5 (drop 10 code)) = 5" "length (take 5 (drop 15 code)) = 5"
    "length (drop 20 code) = 5"
    using assms(1) by simp_all
  have f: "formatted code = ''CSGO'' @ ?groups"
    by (simp add: formatted_def)
  have t: "take 4 (formatted code) = ''CSGO''" "drop 4 (formatted code) = ?groups"
    by (simp_all add: f)
  have "match_groups 5 ?groups = Some []"
    by (rule match_groups_5 [OF l s(1) s(2) s(2) s(2) s(3), of "[]", unfolded append_Nil2])
  with t show "CODE_PATTERN_match (formatted code)"
    by (simp add: CODE_PATTERN_match_def)
  have "removeprefix ''CSGO'' (formatted code) = ?groups"
    by (simp only: f removeprefix_append)
  then show "filter (\<lambda>c. c \<noteq> CHR ''-'') (removeprefix ''CSGO'' (formatted code)) = code"
    by (simp only: filter_groups_5 [OF s(1) s(2) s(2) s(2) s(3)] groups_join)
qed

lemma packed_fields:
  fixes m oc tk :: int
  assumes "0 \<le> m" "m < 2 ^ 64" "0 \<le> oc" "oc < 2 ^ 64" "0 \<le> tk" "tk < 2 ^ 16"
  defines "x \<equiv> push_bit 128 tk OR push_bit 64 oc OR m"
  shows "0 \<le> x" "x < 2 ^ 144"
    "x AND bitmask64 = m" "drop_bit 64 x AND bitmask64 = oc" "drop_bit 128 x AND 65535 = tk"
proof -
  have tm: "take_bit 64 m = m" "take_bit 64 oc = oc" "take_bit 16 tk = tk"
    using assms by (simp_all add: take_bit_int_eq_self)
  have b: "bitmask64 = mask 64" "(65535 :: int) = mask 16"
    by (simp_all add: bitmask64_def mask_eq_exp_minus_1)
  have z: "drop_bit 64 m = 0" "drop_bit 64 oc = 0" "drop_bit 128 m = 0"
    using assms by (simp_all add: drop_bit_eq_div)
  show "0 \<le> x" using assms by (simp add: x_def)
  have "push_bit 128 tk < 2 ^ 144" "push_bit 64 oc < 2 ^ 144" "m < 2 ^ 144"
    using assms by (simp_all add: push_bit_eq_mult)
  then show "x < 2 ^ 144"
    unfolding x_def using assms by (intro OR_upper) simp_all
  have "take_bit 64 x = m"
    by (simp add: x_def take_bit_push_bit tm)
  then show "x AND bitmask64 = m"
    by (simp only: b take_bit_eq_mask)
  have "take_bit 64 (drop_bit 64 x) = oc"
    by (simp add: x_def drop_bit_push_bit take_bit_push_bit tm z)
  then show "drop_bit 64 x AND bitmask64 = oc"
    by (simp only: b take_bit_eq_mask)
  have "take_bit 16 (drop_bit 128 x) = tk"
    by (simp add: x_def drop_bit_push_bit tm z)
  then show "drop_bit 128 x AND 65535 = tk"
    by (simp only: b take_bit_eq_mask)
qed

lemma encode_formatted:
  "encode m oc tk =
     formatted (encode_loop 25 (swap_endianness (push_bit 128 tk OR push_bit 64 oc OR m)) [])"
  by (simp add: encode_def formatted_def Let_def)

text \<open>
  C8. For all integers \<open>m\<close> and \<open>oc\<close> in \<open>[0, 2^64)\<close> and \<open>tk\<close> in \<open>[0, 2^16)\<close>, \<open>encode\<close> returns
  a string that \<open>decode\<close> accepts, and \<open>decode\<close> returns the three numbers: match id \<open>m\<close>,
  outcome id \<open>oc\<close> and token \<open>tk\<close>.
\<close>

theorem decode_encode:
  assumes "0 \<le> m" "m < 2 ^ 64" "0 \<le> oc" "oc < 2 ^ 64" "0 \<le> tk" "tk < 2 ^ 16"
  shows "decode (encode m oc tk) = Inr \<lparr>matchid = m, outcomeid = oc, token = tk\<rparr>"
proof -
  define x where "x = push_bit 128 tk OR push_bit 64 oc OR m"
  define num where "num = swap_endianness x"
  define code where "code = encode_loop 25 num []"
  note f = packed_fields [OF assms, folded x_def]
  have n: "0 \<le> num" "num < 2 ^ 144"
    using swap_endianness_bounds [of x] by (simp_all add: num_def)
  have c: "code = map digit_char (le_digits 57 25 num)"
    by (simp add: code_def encode_loop_digits)
  have "length code = 25"
    by (simp add: c length_le_digits)
  moreover have "set code \<subseteq> set dictionary"
    using le_digits_ok [of 57 25 num]
    by (auto simp: c digits_ok_def list_all_iff digit_char_in_dictionary)
  ultimately have p: "CODE_PATTERN_match (formatted code)"
    "filter (\<lambda>c. c \<noteq> CHR ''-'') (removeprefix ''CSGO'' (formatted code)) = code"
    by (rule formatted_match)+
  have d: "decode_loop (rev code) 0 = Inr num"
    unfolding code_def by (rule decode_loop_encode_loop [OF n])
  have s: "swap_endianness num = x"
    unfolding num_def by (rule swap_endianness_involution [OF f(1,2)])
  have "encode m oc tk = formatted code"
    by (simp add: encode_formatted code_def num_def x_def)
  then show ?thesis
    by (simp add: decode_def p d s f Let_def)
qed

text \<open>
  The round trip at the least values, at the greatest values \<open>2^64 - 1\<close>, \<open>2^64 - 1\<close> and
  \<open>2^16 - 1\<close>, and at values in between.
\<close>

theorem decode_encode_witness:
  "decode (encode 0 0 0) = Inr \<lparr>matchid = 0, outcomeid = 0, token = 0\<rparr>
   \<and> decode (encode (2 ^ 64 - 1) (2 ^ 64 - 1) (2 ^ 16 - 1))
       = Inr \<lparr>matchid = 2 ^ 64 - 1, outcomeid = 2 ^ 64 - 1, token = 2 ^ 16 - 1\<rparr>
   \<and> decode (encode 3 258 7) = Inr \<lparr>matchid = 3, outcomeid = 258, token = 7\<rparr>"
  using decode_encode [of 0 0 0] decode_encode [of "2 ^ 64 - 1" "2 ^ 64 - 1" "2 ^ 16 - 1"]
    decode_encode [of 3 258 7]
  by simp

text \<open>The share code of the least values.\<close>

lemma encode_example: "encode 0 0 0 = ''CSGO-AAAAA-AAAAA-AAAAA-AAAAA-AAAAA''"
  by code_simp

end
